theory Spec2Isabelle
  imports Main "HOL-Library.Char_ord" "HOL-Library.List_Lexorder"
begin

section \<open>The failure sink\<close>

text \<open>
  The Go interface \<^verbatim>\<open>TestingT\<close> has two methods, \<^verbatim>\<open>Errorf(format, args...)\<close> and
  \<^verbatim>\<open>FailNow()\<close>. A sink is identified by a number; every call a check makes on a sink
  is appended to a trace, in order. \<^verbatim>\<open>Errorf\<close> is logged with its format string and
  its arguments (each already rendered as text) and returns. \<^verbatim>\<open>FailNow\<close> is logged
  and stops the calling test: nothing after it runs (\<^verbatim>\<open>testing.T.FailNow\<close> ends the
  goroutine). A Go \<^verbatim>\<open>panic\<close> stops the run as well, with its message.
\<close>

type_synonym TestingT = nat

datatype call = Errorf string "string list" | FailNow

type_synonym trace = "(TestingT \<times> call) list"

datatype 'a outcome = Returns 'a | Halted | Panicked string

type_synonym 'a action = "trace \<Rightarrow> 'a outcome \<times> trace"

definition return :: "'a \<Rightarrow> 'a action" where
  "return x = (\<lambda>s. (Returns x, s))"

definition andThen :: "'a action \<Rightarrow> ('a \<Rightarrow> 'b action) \<Rightarrow> 'b action" where
  "andThen m f = (\<lambda>s. case m s of
       (Returns x, s') \<Rightarrow> f x s'
     | (Halted, s') \<Rightarrow> (Halted, s')
     | (Panicked p, s') \<Rightarrow> (Panicked p, s'))"

definition t_Errorf :: "TestingT \<Rightarrow> string \<Rightarrow> string list \<Rightarrow> unit action" where
  "t_Errorf t format args = (\<lambda>s. (Returns (), s @ [(t, Errorf format args)]))"

definition t_FailNow :: "TestingT \<Rightarrow> unit action" where
  "t_FailNow t = (\<lambda>s. (Halted, s @ [(t, FailNow)]))"

definition panic :: "string \<Rightarrow> 'a action" where
  "panic p = (\<lambda>s. (Panicked p, s))"

section \<open>Values and the libraries the checks call\<close>

text \<open>
  A value of Go type \<^verbatim>\<open>interface{}\<close>, as far as the code tells kinds apart: the type
  switch of \<^verbatim>\<open>toHTMLNode\<close> knows \<^verbatim>\<open>*html.Node\<close>, \<^verbatim>\<open>string\<close>, \<^verbatim>\<open>[]byte\<close> and
  \<^verbatim>\<open>*goquery.Selection\<close>. A pointer may be nil and still carry its type
  (\<open>NodePtr None\<close>); \<open>Nil\<close> is the interface value with no dynamic type. Every other
  dynamic type is \<open>Other\<close>. Strings and byte slices are byte lists.
\<close>

datatype ('n, 'q, 'o) iface =
    NodePtr "'n option"
  | String string
  | Bytes string
  | SelectionPtr 'q
  | Nil
  | Other 'o

abbreviation NL :: char where "NL \<equiv> CHR 0x0A"
abbreviation TAB :: char where "TAB \<equiv> CHR 0x09"
abbreviation CR :: char where "CR \<equiv> CHR 0x0D"

text \<open>\<^verbatim>\<open>difflib.UnifiedDiff\<close>; the fields \<^verbatim>\<open>diff\<close> does not set keep Go's zero value.\<close>

record UnifiedDiff =
  A :: "string list"
  FromFile :: string
  FromDate :: string
  B :: "string list"
  ToFile :: string
  ToDate :: string
  Eol :: string
  Context :: int

text \<open>\<^verbatim>\<open>spew.ConfigState\<close>, the three fields \<^verbatim>\<open>interfaceDiff\<close> sets.\<close>

record ConfigState =
  Indent :: string
  DisableMethods :: bool
  SortKeys :: bool

text \<open>
  The functions the code calls and this repository's files under \<^verbatim>\<open>src/\<close> do not
  define are parameters, collected in one record. An \<^verbatim>\<open>error\<close> is its text. A Go
  result pair \<^verbatim>\<open>(x, err)\<close> is a pair whose second component is \<open>None\<close> for a nil
  error.

  \<^item> \<open>messageFromMsgAndArgs\<close>, \<open>getWhitespaceString\<close>, \<open>indentMessageLines\<close>: helpers
    of package \<^verbatim>\<open>assert\<close> of this repository, called unqualified, whose file is not
    among the sources.
  \<^item> \<open>assert_CallerInfo\<close>, \<open>assert_Fail\<close>: \<^verbatim>\<open>github.com/stretchr/testify/assert\<close>.
  \<^item> \<open>spew_Sdump\<close>: \<^verbatim>\<open>(*spew.ConfigState).Sdump\<close>.
  \<^item> \<open>difflib_GetUnifiedDiffString\<close>: \<^verbatim>\<open>difflib.GetUnifiedDiffString\<close>.
  \<^item> \<open>json_MarshalIndent\<close>, \<open>json_Unmarshal\<close>: \<^verbatim>\<open>encoding/json\<close>. \<open>json_Unmarshal\<close>
    gives the value decoded into an \<^verbatim>\<open>interface{}\<close> target, or the error.
  \<^item> \<open>reflect_DeepEqual\<close>: \<^verbatim>\<open>reflect.DeepEqual\<close>.
  \<^item> \<open>html_Parse\<close>, \<open>html_Render\<close>: \<^verbatim>\<open>golang.org/x/net/html\<close>. \<open>html_Render\<close> gives
    the text written to the buffer (the code drops the error it returns), or \<open>Inl\<close> the
    message of a panic.
  \<^item> \<open>goquery_OuterHtml\<close>: \<^verbatim>\<open>goquery.OuterHtml\<close>.
  \<^item> \<open>typeName\<close>: what the verb \<^verbatim>\<open>%T\<close> prints for a value of another dynamic type.
\<close>

record ('n, 'q, 'o, 'm) env =
  messageFromMsgAndArgs :: "'m \<Rightarrow> string"
  getWhitespaceString :: string
  indentMessageLines :: "string \<Rightarrow> nat \<Rightarrow> string"
  assert_CallerInfo :: "string list"
  assert_Fail :: "TestingT \<Rightarrow> string \<Rightarrow> 'm \<Rightarrow> bool action"
  spew_Sdump :: "ConfigState \<Rightarrow> ('n, 'q, 'o) iface \<Rightarrow> string"
  difflib_GetUnifiedDiffString :: "UnifiedDiff \<Rightarrow> string \<times> string option"
  json_MarshalIndent :: "('n, 'q, 'o) iface \<Rightarrow> string \<Rightarrow> string \<Rightarrow> string \<times> string option"
  json_Unmarshal :: "string \<Rightarrow> string + ('n, 'q, 'o) iface"
  reflect_DeepEqual :: "('n, 'q, 'o) iface \<Rightarrow> ('n, 'q, 'o) iface \<Rightarrow> bool"
  html_Parse :: "string \<Rightarrow> 'n option \<times> string option"
  html_Render :: "'n option \<Rightarrow> string + string"
  goquery_OuterHtml :: "'q \<Rightarrow> string \<times> string option"
  typeName :: "'o \<Rightarrow> string"

section \<open>Strings\<close>

text \<open>\<^verbatim>\<open>strings.HasSuffix\<close>, \<^verbatim>\<open>strings.Join\<close>, and \<^verbatim>\<open>strings.SplitAfter\<close> for a separator
  of one byte (the code splits after \<^verbatim>\<open>"\n"\<close> only): every piece but the last ends with
  the separator, and the last piece is what follows the last separator, empty or not.\<close>

definition HasSuffix :: "string \<Rightarrow> string \<Rightarrow> bool" where
  "HasSuffix s suffix =
     (length suffix \<le> length s \<and> drop (length s - length suffix) s = suffix)"

fun Join :: "string list \<Rightarrow> string \<Rightarrow> string" where
  "Join [] sep = []"
| "Join [x] sep = x"
| "Join (x # y # ys) sep = x @ sep @ Join (y # ys) sep"

fun SplitAfter :: "string \<Rightarrow> char \<Rightarrow> string list" where
  "SplitAfter [] sep = [[]]"
| "SplitAfter (c # cs) sep =
     (if c = sep then [c] # SplitAfter cs sep
      else (case SplitAfter cs sep of
              [] \<Rightarrow> [[c]]
            | l # ls \<Rightarrow> (c # l) # ls))"

section \<open>Package assert: the revision with all five checks\<close>

text \<open>The functions of \<^verbatim>\<open>src/unnamed/part_000\<close>, in the order of the file.\<close>

record 'b Assertions =
  Assertions_embedded :: 'b
  Assertions_t :: TestingT

text \<open>\<^verbatim>\<open>New\<close>: the object embeds what testify's \<^verbatim>\<open>assert.New\<close> makes for the sink and
  stores the sink.\<close>

definition New :: "(TestingT \<Rightarrow> 'b) \<Rightarrow> TestingT \<Rightarrow> 'b Assertions" where
  "New assert_New t = \<lparr> Assertions_embedded = assert_New t, Assertions_t = t \<rparr>"

text \<open>\<^verbatim>\<open>Fail\<close>: one \<^verbatim>\<open>Errorf\<close>, with the user's message as a fourth argument when it is
  not empty; returns false.\<close>

definition Fail :: "('n, 'q, 'o, 'm) env \<Rightarrow> TestingT \<Rightarrow> string \<Rightarrow> 'm \<Rightarrow> bool action" where
  "Fail E t failureMessage msgAndArgs =
     (let message = messageFromMsgAndArgs E msgAndArgs;
          errorTrace = Join (assert_CallerInfo E) ([NL] @ [TAB, TAB, TAB])
      in if length message > 0
         then andThen
                (t_Errorf t
                   (''%s'' @ [TAB] @ ''Error Trace:'' @ [TAB] @ ''%s'' @ [NL]
                      @ [TAB] @ ''Error:%s'' @ [NL]
                      @ [TAB] @ ''Messages:'' @ [TAB] @ ''%s'' @ [NL])
                   [getWhitespaceString E, errorTrace,
                    indentMessageLines E failureMessage 2, message])
                (\<lambda>_. return False)
         else andThen
                (t_Errorf t
                   (''%s'' @ [TAB] @ ''Error Trace:'' @ [TAB] @ ''%s'' @ [NL]
                      @ [TAB] @ ''Error:%s'' @ [NL])
                   [getWhitespaceString E, errorTrace,
                    indentMessageLines E failureMessage 2])
                (\<lambda>_. return False))"

text \<open>\<^verbatim>\<open>FailDiff\<close>: with an empty diff it is \<^verbatim>\<open>Fail\<close>; otherwise the message is built
  with \<^verbatim>\<open>fmt.Sprintf\<close> (each \<^verbatim>\<open>%s\<close> replaced by its argument) and handed to \<^verbatim>\<open>Errorf\<close>
  as the format, with no arguments. The parameter \<^verbatim>\<open>diff\<close> is \<open>diffText\<close> here.\<close>

definition FailDiff ::
  "('n, 'q, 'o, 'm) env \<Rightarrow> TestingT \<Rightarrow> string \<Rightarrow> string \<Rightarrow> 'm \<Rightarrow> bool action" where
  "FailDiff E t failureMessage diffText msgAndArgs =
     (if diffText = [] then Fail E t failureMessage msgAndArgs
      else
        let message = messageFromMsgAndArgs E msgAndArgs;
            errorTrace = Join (assert_CallerInfo E) ([NL] @ [TAB, TAB, TAB]);
            msg = getWhitespaceString E @ [NL] @ [TAB] @ ''Error Trace:'' @ [TAB] @ errorTrace
                    @ [NL] @ [TAB] @ ''Error:'' @ indentMessageLines E failureMessage 2 @ [NL];
            msg = (if length diffText > 0
                   then msg @ ([TAB] @ ''Diff:'' @ [NL] @ [CR] @ [TAB]
                                 @ indentMessageLines E diffText 3 @ [NL])
                   else msg);
            msg = (if length message > 0
                   then msg @ ([TAB] @ ''Messages:'' @ [TAB] @ message @ [NL])
                   else msg)
        in andThen (t_Errorf t msg []) (\<lambda>_. return False))"

text \<open>\<^verbatim>\<open>diff\<close>: a missing final newline is added to each text, then the texts are split
  after every newline and handed to difflib. An error of difflib is a panic.\<close>

definition diff :: "('n, 'q, 'o, 'm) env \<Rightarrow> string \<Rightarrow> string \<Rightarrow> string action" where
  "diff E expected actual =
     (let expected = (if \<not> HasSuffix expected [NL] then expected @ [NL] else expected);
          actual = (if \<not> HasSuffix actual [NL] then actual @ [NL] else actual);
          udiff = \<lparr> A = SplitAfter expected NL, FromFile = ''expected'', FromDate = [],
                    B = SplitAfter actual NL, ToFile = ''actual'', ToDate = [],
                    Eol = [], Context = 2 \<rparr>
      in case difflib_GetUnifiedDiffString E udiff of
           (d, Some err) \<Rightarrow> panic (''Error producing diff: '' @ err)
         | (d, None) \<Rightarrow> return d)"

definition scs :: ConfigState where
  "scs = \<lparr> Indent = ''  '', DisableMethods = True, SortKeys = True \<rparr>"

text \<open>\<^verbatim>\<open>interfaceDiff\<close>: in this revision the four \<^verbatim>\<open>ReplaceAllString\<close> lines and the
  patterns are commented out, so the dumps go to \<^verbatim>\<open>diff\<close> as spew printed them.\<close>

definition interfaceDiff ::
  "('n, 'q, 'o, 'm) env \<Rightarrow> ('n, 'q, 'o) iface \<Rightarrow> ('n, 'q, 'o) iface \<Rightarrow> string action" where
  "interfaceDiff E expected actual =
     (let expString = spew_Sdump E scs expected;
          actString = spew_Sdump E scs actual
      in diff E expString actString)"

definition DeepEqual ::
  "('n, 'q, 'o, 'm) env \<Rightarrow> TestingT \<Rightarrow> ('n, 'q, 'o) iface \<Rightarrow> ('n, 'q, 'o) iface \<Rightarrow> 'm
     \<Rightarrow> bool action" where
  "DeepEqual E t expected actual msgAndArgs =
     (if reflect_DeepEqual E expected actual then return True
      else andThen (interfaceDiff E expected actual)
             (\<lambda>d. FailDiff E t ''Structs differ'' d msgAndArgs))"

definition Assertions_DeepEqual ::
  "('n, 'q, 'o, 'm) env \<Rightarrow> 'b Assertions \<Rightarrow> ('n, 'q, 'o) iface \<Rightarrow> ('n, 'q, 'o) iface \<Rightarrow> 'm
     \<Rightarrow> bool action" where
  "Assertions_DeepEqual E a expected actual msgAndArgs =
     DeepEqual E (Assertions_t a) expected actual msgAndArgs"

text \<open>\<^verbatim>\<open>marshalJSON\<close>: on an error of \<^verbatim>\<open>json.MarshalIndent\<close> it reports through \<^verbatim>\<open>Fail\<close>,
  drops what \<^verbatim>\<open>Fail\<close> returns, and returns the output all the same.\<close>

definition marshalJSON ::
  "('n, 'q, 'o, 'm) env \<Rightarrow> TestingT \<Rightarrow> ('n, 'q, 'o) iface \<Rightarrow> 'm \<Rightarrow> string action" where
  "marshalJSON E t i msgAndArgs =
     (case json_MarshalIndent E i [] ''    '' of
        (output, Some err) \<Rightarrow>
          andThen (Fail E t (''Error marshaling JSON: '' @ err @ [NL]) msgAndArgs)
            (\<lambda>_. return output)
      | (output, None) \<Rightarrow> return output)"

text \<open>\<^verbatim>\<open>var e interface{}; json.Unmarshal(data, &e)\<close> with the error dropped: the target
  starts as nil and keeps that value when decoding fails.\<close>

definition unmarshalInto :: "('n, 'q, 'o, 'm) env \<Rightarrow> string \<Rightarrow> ('n, 'q, 'o) iface" where
  "unmarshalInto E data = (case json_Unmarshal E data of Inl err \<Rightarrow> Nil | Inr v \<Rightarrow> v)"

definition DeepEqualJSON ::
  "('n, 'q, 'o, 'm) env \<Rightarrow> TestingT \<Rightarrow> ('n, 'q, 'o) iface \<Rightarrow> ('n, 'q, 'o) iface \<Rightarrow> 'm
     \<Rightarrow> bool action" where
  "DeepEqualJSON E t expected actual msgAndArgs =
     andThen (marshalJSON E t expected msgAndArgs) (\<lambda>expectedJSON.
     andThen (marshalJSON E t actual msgAndArgs) (\<lambda>actualJSON.
       let e = unmarshalInto E expectedJSON;
           a = unmarshalInto E actualJSON
       in if reflect_DeepEqual E e a then return True
          else andThen (diff E expectedJSON actualJSON)
                 (\<lambda>d. FailDiff E t ''JSON representations differ'' d msgAndArgs)))"

definition Assertions_DeepEqualJSON ::
  "('n, 'q, 'o, 'm) env \<Rightarrow> 'b Assertions \<Rightarrow> ('n, 'q, 'o) iface \<Rightarrow> ('n, 'q, 'o) iface \<Rightarrow> 'm
     \<Rightarrow> bool action" where
  "Assertions_DeepEqualJSON E a expected actual msgAndArgs =
     DeepEqualJSON E (Assertions_t a) expected actual msgAndArgs"

definition MarshalsToJSON ::
  "('n, 'q, 'o, 'm) env \<Rightarrow> TestingT \<Rightarrow> string \<Rightarrow> ('n, 'q, 'o) iface \<Rightarrow> 'm \<Rightarrow> bool action" where
  "MarshalsToJSON E t expected actual msgAndArgs =
     andThen (marshalJSON E t actual msgAndArgs) (\<lambda>actualJSON.
       case json_Unmarshal E expected of
         Inl err \<Rightarrow> Fail E t ''Error unmarshaling expected JSON string'' msgAndArgs
       | Inr e \<Rightarrow>
           let a = unmarshalInto E actualJSON
           in if reflect_DeepEqual E e a then return True
              else andThen (diff E expected actualJSON)
                     (\<lambda>d. FailDiff E t ''JSON representations differ'' d msgAndArgs))"

definition Assertions_MarshalsToJSON ::
  "('n, 'q, 'o, 'm) env \<Rightarrow> 'b Assertions \<Rightarrow> string \<Rightarrow> ('n, 'q, 'o) iface \<Rightarrow> 'm
     \<Rightarrow> bool action" where
  "Assertions_MarshalsToJSON E a expected actual msgAndArgs =
     MarshalsToJSON E (Assertions_t a) expected actual msgAndArgs"

definition LinesEqual ::
  "('n, 'q, 'o, 'm) env \<Rightarrow> TestingT \<Rightarrow> string \<Rightarrow> string \<Rightarrow> 'm \<Rightarrow> bool action" where
  "LinesEqual E t expected actual msgAndArgs =
     (if expected = actual then return True
      else andThen (diff E expected actual)
             (\<lambda>d. FailDiff E t ''Strings differ'' d msgAndArgs))"

definition Assertions_LinesEqual ::
  "('n, 'q, 'o, 'm) env \<Rightarrow> 'b Assertions \<Rightarrow> string \<Rightarrow> string \<Rightarrow> 'm \<Rightarrow> bool action" where
  "Assertions_LinesEqual E a expected actual msgAndArgs =
     LinesEqual E (Assertions_t a) expected actual msgAndArgs"

text \<open>\<^verbatim>\<open>toHTMLNode\<close>: the type switch, in the order of its cases. The verb \<^verbatim>\<open>%T\<close> prints
  \<^verbatim>\<open><nil>\<close> for the nil interface. \<^verbatim>\<open>errors.Wrap(err, m)\<close> has the text \<^verbatim>\<open>m: err\<close>.\<close>

definition toHTMLNode ::
  "('n, 'q, 'o, 'm) env \<Rightarrow> ('n, 'q, 'o) iface \<Rightarrow> 'n option \<times> string option" where
  "toHTMLNode E i =
     (case i of
        NodePtr n \<Rightarrow> (n, None)
      | String s \<Rightarrow> html_Parse E s
      | Bytes b \<Rightarrow> html_Parse E b
      | SelectionPtr q \<Rightarrow>
          (case goquery_OuterHtml E q of
             (str, Some err) \<Rightarrow> (None, Some (''failed to get outer html: '' @ err))
           | (str, None) \<Rightarrow> html_Parse E str)
      | Nil \<Rightarrow> (None, Some (''unknown type: '' @ ''<nil>''))
      | Other x \<Rightarrow> (None, Some (''unknown type: '' @ typeName E x)))"

definition HTMLEqual ::
  "('n, 'q, 'o, 'm) env \<Rightarrow> TestingT \<Rightarrow> ('n, 'q, 'o) iface \<Rightarrow> ('n, 'q, 'o) iface \<Rightarrow> 'm
     \<Rightarrow> bool action" where
  "HTMLEqual E t expected actual msgAndArgs =
     (case toHTMLNode E expected of (expDoc, err) \<Rightarrow>
        andThen (case err of
                   Some e \<Rightarrow> andThen (t_Errorf t ''invalid expected document: %s'' [e])
                               (\<lambda>_. t_FailNow t)
                 | None \<Rightarrow> return ())
        (\<lambda>_. case toHTMLNode E actual of (actDoc, err) \<Rightarrow>
           andThen (case err of
                      Some e \<Rightarrow> andThen (t_Errorf t ''invalid actual document: %s'' [e])
                                  (\<lambda>_. t_FailNow t)
                    | None \<Rightarrow> return ())
           (\<lambda>_. if \<not> reflect_DeepEqual E (NodePtr expDoc) (NodePtr actDoc)
                 then (case html_Render E expDoc of
                         Inl p \<Rightarrow> panic p
                       | Inr expBuf \<Rightarrow>
                           (case html_Render E actDoc of
                              Inl p \<Rightarrow> panic p
                            | Inr actBuf \<Rightarrow>
                                andThen (diff E expBuf actBuf)
                                  (\<lambda>d. FailDiff E t ''HTML differs'' d msgAndArgs)))
                 else return True)))"

section \<open>Package require\<close>

text \<open>The functions of \<^verbatim>\<open>src/unnamed/part_002\<close>: each free function runs the check of
  package \<^verbatim>\<open>assert\<close> and calls \<^verbatim>\<open>FailNow\<close> when it returned false; each method hands
  the stored sink to the free function.\<close>

definition require_New :: "(TestingT \<Rightarrow> 'b) \<Rightarrow> TestingT \<Rightarrow> 'b Assertions" where
  "require_New require_New' t = \<lparr> Assertions_embedded = require_New' t, Assertions_t = t \<rparr>"

definition require_DeepEqual ::
  "('n, 'q, 'o, 'm) env \<Rightarrow> TestingT \<Rightarrow> ('n, 'q, 'o) iface \<Rightarrow> ('n, 'q, 'o) iface \<Rightarrow> 'm
     \<Rightarrow> unit action" where
  "require_DeepEqual E t expected actual msgAndArgs =
     andThen (DeepEqual E t expected actual msgAndArgs)
       (\<lambda>ok. if \<not> ok then t_FailNow t else return ())"

definition require_Assertions_DeepEqual ::
  "('n, 'q, 'o, 'm) env \<Rightarrow> 'b Assertions \<Rightarrow> ('n, 'q, 'o) iface \<Rightarrow> ('n, 'q, 'o) iface \<Rightarrow> 'm
     \<Rightarrow> unit action" where
  "require_Assertions_DeepEqual E a expected actual msgAndArgs =
     require_DeepEqual E (Assertions_t a) expected actual msgAndArgs"

definition require_DeepEqualJSON ::
  "('n, 'q, 'o, 'm) env \<Rightarrow> TestingT \<Rightarrow> ('n, 'q, 'o) iface \<Rightarrow> ('n, 'q, 'o) iface \<Rightarrow> 'm
     \<Rightarrow> unit action" where
  "require_DeepEqualJSON E t expected actual msgAndArgs =
     andThen (DeepEqualJSON E t expected actual msgAndArgs)
       (\<lambda>ok. if \<not> ok then t_FailNow t else return ())"

definition require_Assertions_DeepEqualJSON ::
  "('n, 'q, 'o, 'm) env \<Rightarrow> 'b Assertions \<Rightarrow> ('n, 'q, 'o) iface \<Rightarrow> ('n, 'q, 'o) iface \<Rightarrow> 'm
     \<Rightarrow> unit action" where
  "require_Assertions_DeepEqualJSON E a expected actual msgAndArgs =
     require_DeepEqualJSON E (Assertions_t a) expected actual msgAndArgs"

definition require_MarshalsToJSON ::
  "('n, 'q, 'o, 'm) env \<Rightarrow> TestingT \<Rightarrow> string \<Rightarrow> ('n, 'q, 'o) iface \<Rightarrow> 'm \<Rightarrow> unit action" where
  "require_MarshalsToJSON E t expected actual msgAndArgs =
     andThen (MarshalsToJSON E t expected actual msgAndArgs)
       (\<lambda>ok. if \<not> ok then t_FailNow t else return ())"

definition require_Assertions_MarshalsToJSON ::
  "('n, 'q, 'o, 'm) env \<Rightarrow> 'b Assertions \<Rightarrow> string \<Rightarrow> ('n, 'q, 'o) iface \<Rightarrow> 'm
     \<Rightarrow> unit action" where
  "require_Assertions_MarshalsToJSON E a expected actual msgAndArgs =
     require_MarshalsToJSON E (Assertions_t a) expected actual msgAndArgs"

definition require_LinesEqual ::
  "('n, 'q, 'o, 'm) env \<Rightarrow> TestingT \<Rightarrow> string \<Rightarrow> string \<Rightarrow> 'm \<Rightarrow> unit action" where
  "require_LinesEqual E t expected actual msgAndArgs =
     andThen (LinesEqual E t expected actual msgAndArgs)
       (\<lambda>ok. if \<not> ok then t_FailNow t else return ())"

definition require_Assertions_LinesEqual ::
  "('n, 'q, 'o, 'm) env \<Rightarrow> 'b Assertions \<Rightarrow> string \<Rightarrow> string \<Rightarrow> 'm \<Rightarrow> unit action" where
  "require_Assertions_LinesEqual E a expected actual msgAndArgs =
     require_LinesEqual E (Assertions_t a) expected actual msgAndArgs"

definition require_HTMLEqual ::
  "('n, 'q, 'o, 'm) env \<Rightarrow> TestingT \<Rightarrow> ('n, 'q, 'o) iface \<Rightarrow> ('n, 'q, 'o) iface \<Rightarrow> 'm
     \<Rightarrow> unit action" where
  "require_HTMLEqual E t expected actual msgAndArgs =
     andThen (HTMLEqual E t expected actual msgAndArgs)
       (\<lambda>ok. if \<not> ok then t_FailNow t else return ())"

definition require_Assertions_HTMLEqual ::
  "('n, 'q, 'o, 'm) env \<Rightarrow> 'b Assertions \<Rightarrow> ('n, 'q, 'o) iface \<Rightarrow> ('n, 'q, 'o) iface \<Rightarrow> 'm
     \<Rightarrow> unit action" where
  "require_Assertions_HTMLEqual E a expected actual msgAndArgs =
     require_HTMLEqual E (Assertions_t a) expected actual msgAndArgs"

section \<open>Package assert: the earlier revision\<close>

text \<open>
  \<^verbatim>\<open>src/assert/assert.go\<close> holds an earlier revision of the package, with \<^verbatim>\<open>DeepEqual\<close>
  only (\<^verbatim>\<open>src/unnamed/part_001\<close> has the same helper functions). Its functions
  that differ from the ones above carry the suffix \<open>_v1\<close>: \<^verbatim>\<open>Fail\<close> hands over to
  testify's \<^verbatim>\<open>assert.Fail\<close>, \<^verbatim>\<open>FailDiff\<close> lays the message out with carriage returns,
  \<^verbatim>\<open>diff\<close> splits the texts as they are, \<^verbatim>\<open>interfaceDiff\<close> rewrites the dumps with two
  regular expressions, and the method \<^verbatim>\<open>DeepEqual\<close> takes a sink argument that it
  does not use.
\<close>

definition Fail_v1 :: "('n, 'q, 'o, 'm) env \<Rightarrow> TestingT \<Rightarrow> string \<Rightarrow> 'm \<Rightarrow> bool action" where
  "Fail_v1 E t failureMessage msgAndArgs = assert_Fail E t failureMessage msgAndArgs"

definition FailDiff_v1 ::
  "('n, 'q, 'o, 'm) env \<Rightarrow> TestingT \<Rightarrow> string \<Rightarrow> string \<Rightarrow> 'm \<Rightarrow> bool action" where
  "FailDiff_v1 E t failureMessage diffText msgAndArgs =
     (if diffText = [] then Fail_v1 E t failureMessage msgAndArgs
      else
        let message = messageFromMsgAndArgs E msgAndArgs;
            errorTrace = Join (assert_CallerInfo E) ([NL] @ [CR] @ [TAB, TAB, TAB]);
            msg = [CR] @ getWhitespaceString E @ [CR] @ [TAB] @ ''Error Trace:'' @ [TAB]
                    @ errorTrace @ [NL]
                    @ [CR] @ [TAB] @ ''Error:'' @ indentMessageLines E failureMessage 2 @ [NL];
            msg = (if length diffText > 0
                   then msg @ ([CR] @ [TAB] @ ''Diff:'' @ indentMessageLines E diffText 2
                                 @ [NL] @ [CR])
                   else msg);
            msg = (if length message > 0
                   then msg @ ([CR] @ [TAB] @ ''Messages:'' @ [TAB] @ message @ [NL] @ [CR])
                   else msg)
        in andThen (t_Errorf t msg []) (\<lambda>_. return False))"

text \<open>
  A compiled pattern is the function that tells, for a text, how long the match of the
  pattern at the start of the text is (Go's leftmost-first match), if there is one.

  \<^verbatim>\<open>capRE = "cap=[0-9]+\\)"\<close>: the four bytes \<^verbatim>\<open>cap=\<close>, one or more decimal digits, a
  closing parenthesis. The digits are matched greedily and only \<^verbatim>\<open>)\<close> may follow
  them, so a match takes the whole run of digits.

  \<^verbatim>\<open>addRE = "\\(0x[0-9a-f]{6,10}\\)"\<close>: the three bytes \<^verbatim>\<open>(0x\<close>, six to ten digits out
  of \<^verbatim>\<open>0-9a-f\<close>, a closing parenthesis; again the run of digits is taken whole, and a
  run of another length does not match.
\<close>

text \<open>
  The two patterns as they are written, in the part of the syntax they use: a literal
  text, one byte out of a class, one pattern after another, and a pattern repeated at
  least \<open>lo\<close> and (with \<open>Some hi\<close>) at most \<open>hi\<close> times; \<open>lang\<close> is the set of the texts
  a pattern matches. The lemmas \<open>capRE_matches\<close> and \<open>addRE_matches\<close> below show that
  the two functions \<open>capRE\<close> and \<open>addRE\<close> find exactly the match of their pattern at
  the start of a text.
\<close>

datatype pattern =
    Lit string
  | OneOf string
  | Seq pattern pattern
  | Rep pattern nat "nat option"

primrec lang :: "pattern \<Rightarrow> string set" where
  "lang (Lit w) = {w}"
| "lang (OneOf cs) = {[c] | c. c \<in> set cs}"
| "lang (Seq a b) = {u @ v | u v. u \<in> lang a \<and> v \<in> lang b}"
| "lang (Rep a lo hi) =
     {concat ws | ws. lo \<le> length ws \<and> (case hi of None \<Rightarrow> True | Some h \<Rightarrow> length ws \<le> h)
                      \<and> set ws \<subseteq> lang a}"

definition capPattern :: pattern where
  "capPattern = Seq (Lit ''cap='') (Seq (Rep (OneOf ''0123456789'') 1 None) (Lit '')''))"

definition addPattern :: pattern where
  "addPattern =
     Seq (Lit ''(0x'') (Seq (Rep (OneOf ''0123456789abcdef'') 6 (Some 10)) (Lit '')''))"

type_synonym Regexp = "string \<Rightarrow> nat option"

definition isDigit :: "char \<Rightarrow> bool" where
  "isDigit c = (c \<in> set ''0123456789'')"

definition isHex :: "char \<Rightarrow> bool" where
  "isHex c = (c \<in> set ''0123456789abcdef'')"

definition capRE :: Regexp where
  "capRE s =
     (let ds = takeWhile isDigit (drop 4 s)
      in if take 4 s = ''cap='' \<and> 1 \<le> length ds \<and> take 1 (drop (4 + length ds) s) = '')''
         then Some (4 + length ds + 1) else None)"

definition capRepl :: string where
  "capRepl = ''cap=X''"

definition addRE :: Regexp where
  "addRE s =
     (let hs = takeWhile isHex (drop 3 s)
      in if take 3 s = ''(0x'' \<and> 6 \<le> length hs \<and> length hs \<le> 10
              \<and> take 1 (drop (3 + length hs) s) = '')''
         then Some (3 + length hs + 1) else None)"

definition addRepl :: string where
  "addRepl = ''(0xXXXXXXXXXX)''"

text \<open>
  \<^verbatim>\<open>(*Regexp).ReplaceAllString(src, repl)\<close>: the text is read from the left; where the
  pattern matches, the match is replaced by \<open>repl\<close> and reading goes on behind it;
  elsewhere one byte is copied. Neither replacement holds a \<^verbatim>\<open>$\<close>, so it is
  inserted as it is. Both patterns match at least six bytes; a pattern that matched the
  empty text would copy the byte.
\<close>

fun ReplaceAllString :: "Regexp \<Rightarrow> string \<Rightarrow> string \<Rightarrow> string" where
  "ReplaceAllString re [] repl = []"
| "ReplaceAllString re (c # cs) repl =
     (case re (c # cs) of
        Some (Suc n) \<Rightarrow> repl @ ReplaceAllString re (drop n cs) repl
      | _ \<Rightarrow> c # ReplaceAllString re cs repl)"

definition diff_v1 :: "('n, 'q, 'o, 'm) env \<Rightarrow> string \<Rightarrow> string \<Rightarrow> string action" where
  "diff_v1 E expected actual =
     (let udiff = \<lparr> A = SplitAfter expected NL, FromFile = ''expected'', FromDate = [],
                    B = SplitAfter actual NL, ToFile = ''actual'', ToDate = [],
                    Eol = [], Context = 2 \<rparr>
      in case difflib_GetUnifiedDiffString E udiff of
           (d, Some err) \<Rightarrow> panic (''Error producing diff: '' @ err)
         | (d, None) \<Rightarrow> return d)"

definition interfaceDiff_v1 ::
  "('n, 'q, 'o, 'm) env \<Rightarrow> ('n, 'q, 'o) iface \<Rightarrow> ('n, 'q, 'o) iface \<Rightarrow> string action" where
  "interfaceDiff_v1 E expected actual =
     (let expString = spew_Sdump E scs expected;
          actString = spew_Sdump E scs actual;
          expString = ReplaceAllString capRE expString capRepl;
          actString = ReplaceAllString capRE actString capRepl;
          expString = ReplaceAllString addRE expString addRepl;
          actString = ReplaceAllString addRE actString addRepl
      in diff_v1 E expString actString)"

definition DeepEqual_v1 ::
  "('n, 'q, 'o, 'm) env \<Rightarrow> TestingT \<Rightarrow> ('n, 'q, 'o) iface \<Rightarrow> ('n, 'q, 'o) iface \<Rightarrow> 'm
     \<Rightarrow> bool action" where
  "DeepEqual_v1 E t expected actual msgAndArgs =
     (if reflect_DeepEqual E expected actual then return True
      else andThen (interfaceDiff_v1 E expected actual)
             (\<lambda>d. FailDiff_v1 E t ''Structs differ'' d msgAndArgs))"

definition Assertions_DeepEqual_v1 ::
  "('n, 'q, 'o, 'm) env \<Rightarrow> 'b Assertions \<Rightarrow> TestingT \<Rightarrow> ('n, 'q, 'o) iface
     \<Rightarrow> ('n, 'q, 'o) iface \<Rightarrow> 'm \<Rightarrow> bool action" where
  "Assertions_DeepEqual_v1 E a t expected actual msgAndArgs =
     DeepEqual_v1 E (Assertions_t a) expected actual msgAndArgs"

text \<open>\<^verbatim>\<open>src/unnamed/part_003\<close> holds two earlier revisions of package \<^verbatim>\<open>require\<close>; they
  differ from the one above in one signature: the method \<^verbatim>\<open>DeepEqualJSON\<close> of the
  first takes a sink argument that it does not use.\<close>

definition require_Assertions_DeepEqualJSON_v1 ::
  "('n, 'q, 'o, 'm) env \<Rightarrow> 'b Assertions \<Rightarrow> TestingT \<Rightarrow> ('n, 'q, 'o) iface
     \<Rightarrow> ('n, 'q, 'o) iface \<Rightarrow> 'm \<Rightarrow> unit action" where
  "require_Assertions_DeepEqualJSON_v1 E a t expected actual msgAndArgs =
     require_DeepEqualJSON E (Assertions_t a) expected actual msgAndArgs"

section \<open>What a check leaves in the trace\<close>

text \<open>The call that \<open>Fail\<close> makes on the sink, and the call that \<open>FailDiff\<close> makes: the
  statements below name them when they say what a check reported.\<close>

definition failureReport :: "('n, 'q, 'o, 'm) env \<Rightarrow> string \<Rightarrow> 'm \<Rightarrow> call" where
  "failureReport E failureMessage msgAndArgs =
     (if messageFromMsgAndArgs E msgAndArgs \<noteq> []
      then Errorf
             (''%s'' @ [TAB] @ ''Error Trace:'' @ [TAB] @ ''%s'' @ [NL]
                @ [TAB] @ ''Error:%s'' @ [NL]
                @ [TAB] @ ''Messages:'' @ [TAB] @ ''%s'' @ [NL])
             [getWhitespaceString E, Join (assert_CallerInfo E) [NL, TAB, TAB, TAB],
              indentMessageLines E failureMessage 2, messageFromMsgAndArgs E msgAndArgs]
      else Errorf
             (''%s'' @ [TAB] @ ''Error Trace:'' @ [TAB] @ ''%s'' @ [NL]
                @ [TAB] @ ''Error:%s'' @ [NL])
             [getWhitespaceString E, Join (assert_CallerInfo E) [NL, TAB, TAB, TAB],
              indentMessageLines E failureMessage 2])"

definition diffReport :: "('n, 'q, 'o, 'm) env \<Rightarrow> string \<Rightarrow> string \<Rightarrow> 'm \<Rightarrow> call" where
  "diffReport E failureMessage diffText msgAndArgs =
     (if diffText = [] then failureReport E failureMessage msgAndArgs
      else Errorf
             (getWhitespaceString E @ [NL, TAB] @ ''Error Trace:'' @ [TAB]
                @ Join (assert_CallerInfo E) [NL, TAB, TAB, TAB]
                @ [NL, TAB] @ ''Error:'' @ indentMessageLines E failureMessage 2 @ [NL]
                @ [TAB] @ ''Diff:'' @ [NL, CR, TAB] @ indentMessageLines E diffText 3 @ [NL]
                @ (if messageFromMsgAndArgs E msgAndArgs \<noteq> []
                   then [TAB] @ ''Messages:'' @ [TAB] @ messageFromMsgAndArgs E msgAndArgs @ [NL]
                   else []))
             [])"


text \<open>What \<open>marshalJSON\<close> leaves in the trace for a value: nothing when the value
  marshals, one report with the error's text when it does not.\<close>

definition marshalReport ::
  "('n, 'q, 'o, 'm) env \<Rightarrow> TestingT \<Rightarrow> ('n, 'q, 'o) iface \<Rightarrow> 'm \<Rightarrow> trace" where
  "marshalReport E t i msgAndArgs =
     (case snd (json_MarshalIndent E i [] ''    '') of
        None \<Rightarrow> []
      | Some err \<Rightarrow> [(t, failureReport E (''Error marshaling JSON: '' @ err @ [NL]) msgAndArgs)])"

text \<open>The text \<open>diff\<close> splits: the input, with a newline added when it does not end
  with one.\<close>

definition withNewline :: "string \<Rightarrow> string" where
  "withNewline s = (if s \<noteq> [] \<and> last s = NL then s else s @ [NL])"

definition unifiedDiffOf :: "string \<Rightarrow> string \<Rightarrow> UnifiedDiff" where
  "unifiedDiffOf x y =
     \<lparr> A = SplitAfter x NL, FromFile = ''expected'', FromDate = [],
       B = SplitAfter y NL, ToFile = ''actual'', ToDate = [], Eol = [], Context = 2 \<rparr>"

text \<open>
  Two dumps that differ only in volatile annotations: read from the left, they agree byte
  for byte, except that where one has a capacity annotation (\<^verbatim>\<open>cap=\<close>, digits, \<^verbatim>\<open>)\<close>)
  the other has a capacity annotation too, with digits of its own, and where one has an
  address annotation (\<^verbatim>\<open>(0x\<close>, six to ten digits out of \<^verbatim>\<open>0-9a-f\<close>, \<^verbatim>\<open>)\<close>) the other has
  an address annotation too, with digits of its own.
\<close>

inductive sameUpToVolatile :: "string \<Rightarrow> string \<Rightarrow> bool" where
  empty: "sameUpToVolatile [] []"
| same: "sameUpToVolatile s u \<Longrightarrow> sameUpToVolatile (c # s) (c # u)"
| cap: "ds \<noteq> [] \<Longrightarrow> ds' \<noteq> [] \<Longrightarrow> list_all isDigit ds \<Longrightarrow> list_all isDigit ds' \<Longrightarrow>
        sameUpToVolatile s u \<Longrightarrow>
        sameUpToVolatile (''cap='' @ ds @ '')'' @ s) (''cap='' @ ds' @ '')'' @ u)"
| addr: "6 \<le> length h \<Longrightarrow> length h \<le> 10 \<Longrightarrow> 6 \<le> length h' \<Longrightarrow> length h' \<le> 10 \<Longrightarrow>
         list_all isHex h \<Longrightarrow> list_all isHex h' \<Longrightarrow>
         sameUpToVolatile s u \<Longrightarrow>
         sameUpToVolatile (''(0x'' @ h @ '')'' @ s) (''(0x'' @ h' @ '')'' @ u)"

text \<open>The same with address annotations only: what is left to differ once the capacity
  annotations are rewritten.\<close>

inductive sameUpToAddress :: "string \<Rightarrow> string \<Rightarrow> bool" where
  empty: "sameUpToAddress [] []"
| same: "sameUpToAddress s u \<Longrightarrow> sameUpToAddress (c # s) (c # u)"
| addr: "6 \<le> length h \<Longrightarrow> length h \<le> 10 \<Longrightarrow> 6 \<le> length h' \<Longrightarrow> length h' \<le> 10 \<Longrightarrow>
         list_all isHex h \<Longrightarrow> list_all isHex h' \<Longrightarrow>
         sameUpToAddress s u \<Longrightarrow>
         sameUpToAddress (''(0x'' @ h @ '')'' @ s) (''(0x'' @ h' @ '')'' @ u)"

text \<open>The text \<open>interfaceDiff_v1\<close> hands to \<open>diff_v1\<close> for a dump.\<close>

definition normalizedDump :: "string \<Rightarrow> string" where
  "normalizedDump s = ReplaceAllString addRE (ReplaceAllString capRE s capRepl) addRepl"

section \<open>The JSON encoder and the deep comparison on generic values\<close>

text \<open>
  \<^verbatim>\<open>DeepEqualJSON\<close> hands both values to \<^verbatim>\<open>json.MarshalIndent\<close>, decodes each text into
  an \<^verbatim>\<open>interface{}\<close>, and compares the results with \<^verbatim>\<open>reflect.DeepEqual\<close>. The
  definitions of this section follow the documentation of \<^verbatim>\<open>encoding/json\<close> and
  \<^verbatim>\<open>reflect\<close> for the values involved.

  \<^verbatim>\<open>json.Unmarshal\<close> stores in an interface value one of: \<^verbatim>\<open>nil\<close> for JSON null,
  \<^verbatim>\<open>bool\<close>, \<^verbatim>\<open>float64\<close>, \<^verbatim>\<open>string\<close>, \<^verbatim>\<open>[]interface{}\<close> and \<^verbatim>\<open>map[string]interface{}\<close>.
  These are the first six constructors; the numbers are a parameter \<open>'f\<close>. A map is
  the list of its pairs, in the order they were inserted or any other: a Go map keeps
  no order, and whatever is proved for every such list holds of the map. A map has one
  value for a key, so the keys of the list are distinct. \<open>GoSlice\<close> and \<open>GoMap\<close> are
  non-nil slices and maps. \<open>GoStruct\<close> is a value of a struct type, given by the name of
  the type and the exported fields in the order of their declaration, each under its
  JSON key.
\<close>

datatype 'f goValue =
    GoNil
  | GoBool bool
  | GoNumber 'f
  | GoString string
  | GoSlice "'f goValue list"
  | GoMap "(string \<times> 'f goValue) list"
  | GoStruct string "(string \<times> 'f goValue) list"












section \<open>Stand-ins for the libraries, for the examples\<close>

text \<open>
  The examples below run the checks on concrete values. A value of another dynamic type
  is given by what the libraries answer for it: the type \<^verbatim>\<open>%T\<close> prints, the dump spew
  prints, the result of \<^verbatim>\<open>json.MarshalIndent\<close>, and the class of values it is deeply
  equal to (\<open>None\<close> for a value \<^verbatim>\<open>reflect.DeepEqual\<close> never holds of, itself included:
  a non-nil func, a NaN). The stand-ins answer as the Go libraries do on the values
  of the examples; a parsed document is stood for by its markup.
\<close>

record sample =
  sample_type :: string
  sample_dump :: string
  sample_json :: "string \<times> string option"
  sample_class :: "nat option"

definition fake_Sdump :: "ConfigState \<Rightarrow> (string, string, sample) iface \<Rightarrow> string" where
  "fake_Sdump c v =
     (case v of
        Other x \<Rightarrow> sample_dump x
      | String s \<Rightarrow> ''(string) '' @ s @ [NL]
      | Bytes b \<Rightarrow> ''([]uint8) '' @ b @ [NL]
      | Nil \<Rightarrow> ''(interface {}) <nil>'' @ [NL]
      | NodePtr n \<Rightarrow> ''(*html.Node)'' @ [NL]
      | SelectionPtr q \<Rightarrow> ''(*goquery.Selection)'' @ [NL])"

definition fake_GetUnifiedDiffString :: "UnifiedDiff \<Rightarrow> string \<times> string option" where
  "fake_GetUnifiedDiffString u =
     (if A u = B u then ([], None)
      else (''--- '' @ FromFile u @ [NL] @ ''+++ '' @ ToFile u @ [NL]
              @ concat (map ((@) ''-'') (A u)) @ concat (map ((@) ''+'') (B u)), None))"

definition fake_MarshalIndent ::
  "(string, string, sample) iface \<Rightarrow> string \<Rightarrow> string \<Rightarrow> string \<times> string option" where
  "fake_MarshalIndent v prefix indent =
     (case v of
        Other x \<Rightarrow> sample_json x
      | Nil \<Rightarrow> (''null'', None)
      | _ \<Rightarrow> ([], Some ''json: not a value of the examples''))"

definition chanValue :: sample where
  "chanValue = \<lparr> sample_type = ''chan int'', sample_dump = ''(chan int) 0xc000012345'' @ [NL],
      sample_json = ([], Some ''json: unsupported type: chan int''), sample_class = Some 1 \<rparr>"


definition numberOne :: sample where
  "numberOne = \<lparr> sample_type = ''float64'', sample_dump = ''(float64) 1'' @ [NL],
      sample_json = (''1'', None), sample_class = Some 2 \<rparr>"

text \<open>Two structs that hold a func (so they are not deeply equal), a pointer to the
  same number at two addresses, and a slice with the same element and two capacities.\<close>

definition holderA :: sample where
  "holderA = \<lparr> sample_type = ''main.T'',
      sample_dump = ''(main.T) {'' @ [NL] @ '' p: (*int)(0xc000012345)(1),'' @ [NL]
                     @ '' b: ([]int) (len=1 cap=1) {'' @ [NL] @ ''  (int) 7'' @ [NL]
                     @ '' },'' @ [NL]
                     @ '' f: (func()) 0x47b0e0'' @ [NL] @ ''}'' @ [NL],
      sample_json = ([], Some ''json: unsupported type: func()''), sample_class = None \<rparr>"

definition holderB :: sample where
  "holderB = \<lparr> sample_type = ''main.T'',
      sample_dump = ''(main.T) {'' @ [NL] @ '' p: (*int)(0xc00006789a)(1),'' @ [NL]
                     @ '' b: ([]int) (len=1 cap=16) {'' @ [NL] @ ''  (int) 7'' @ [NL]
                     @ '' },'' @ [NL]
                     @ '' f: (func()) 0x47b0e0'' @ [NL] @ ''}'' @ [NL],
      sample_json = ([], Some ''json: unsupported type: func()''), sample_class = None \<rparr>"

text \<open>A map with the keys A and B (a Go map has no order; \<^verbatim>\<open>encoding/json\<close> writes its
  keys sorted), the text of the same object with the members in the other order, and
  the map both texts decode to.\<close>

definition jsonAB :: string where
  "jsonAB = ''{'' @ [NL] @ ''    \"A\": 1,'' @ [NL] @ ''    \"B\": 2'' @ [NL] @ ''}''"

definition jsonBA :: string where
  "jsonBA = ''{'' @ [NL] @ ''    \"B\": 2,'' @ [NL] @ ''    \"A\": 1'' @ [NL] @ ''}''"

definition mapAB :: sample where
  "mapAB = \<lparr> sample_type = ''map[string]int'',
      sample_dump = ''(map[string]int) (len=2) {'' @ [NL] @ ''  (string) (len=1) \"A\": (int) 1,''
                     @ [NL] @ ''  (string) (len=1) \"B\": (int) 2'' @ [NL] @ ''}'' @ [NL],
      sample_json = (jsonAB, None), sample_class = Some 3 \<rparr>"

definition decodedAB :: sample where
  "decodedAB = \<lparr> sample_type = ''map[string]interface {}'',
      sample_dump = ''(map[string]interface {}) (len=2) {'' @ [NL]
                     @ ''  (string) (len=1) \"A\": (float64) 1,'' @ [NL]
                     @ ''  (string) (len=1) \"B\": (float64) 2'' @ [NL] @ ''}'' @ [NL],
      sample_json = (jsonAB, None), sample_class = Some 5 \<rparr>"

definition fake_Unmarshal :: "string \<Rightarrow> string + (string, string, sample) iface" where
  "fake_Unmarshal data =
     (if data = [] then Inl ''unexpected end of JSON input''
      else if data = ''null'' then Inr Nil
      else if data = ''1'' then Inr (Other numberOne)
      else if data = jsonAB \<or> data = jsonBA then Inr (Other decodedAB)
      else Inl ''invalid character'')"

fun fake_DeepEqual ::
  "(string, string, sample) iface \<Rightarrow> (string, string, sample) iface \<Rightarrow> bool" where
  "fake_DeepEqual (NodePtr p) (NodePtr q) = (p = q)"
| "fake_DeepEqual (String s) (String u) = (s = u)"
| "fake_DeepEqual (Bytes b) (Bytes c) = (b = c)"
| "fake_DeepEqual (SelectionPtr p) (SelectionPtr q) = (p = q)"
| "fake_DeepEqual Nil Nil = True"
| "fake_DeepEqual (Other x) (Other y) =
     (sample_class x \<noteq> None \<and> sample_class x = sample_class y)"
| "fake_DeepEqual _ _ = False"

definition fake :: "(string, string, sample, string) env" where
  "fake = \<lparr> messageFromMsgAndArgs = (\<lambda>m. m),
             getWhitespaceString = [],
             indentMessageLines = (\<lambda>s n. s),
             assert_CallerInfo = [''x_test.go:7''],
             assert_Fail = (\<lambda>t failureMessage m.
                andThen (t_Errorf t (''%s'') [failureMessage]) (\<lambda>_. return False)),
             spew_Sdump = fake_Sdump,
             difflib_GetUnifiedDiffString = fake_GetUnifiedDiffString,
             json_MarshalIndent = fake_MarshalIndent,
             json_Unmarshal = fake_Unmarshal,
             reflect_DeepEqual = fake_DeepEqual,
             html_Parse = (\<lambda>s. (Some s, None)),
             html_Render = (\<lambda>n. case n of
                              None \<Rightarrow> Inl ''invalid memory address or nil pointer dereference''
                            | Some s \<Rightarrow> Inr s),
             goquery_OuterHtml = (\<lambda>q. (q, None)),
             typeName = sample_type \<rparr>"

text \<open>
  For the examples of the JSON round trip: strings without quotes or backslashes in
  them, quoted as they are; natural numbers, printed in decimal; and a decoder for the
  JSON texts made of these, of \<^verbatim>\<open>true\<close>, \<^verbatim>\<open>false\<close>, \<^verbatim>\<open>null\<close>, arrays and objects. Of two
  members with one key the decoder keeps the later one. Its recursion is bounded by a
  number of steps, set to twice the length of the text and one more.
\<close>

abbreviation QUOTE :: char where "QUOTE \<equiv> CHR 0x22"



definition number :: "string \<Rightarrow> nat" where
  "number ds = foldl (\<lambda>n c. 10 * n + (of_char c - 48)) 0 ds"

definition isSpace :: "char \<Rightarrow> bool" where
  "isSpace c = (c \<in> set [CHR 0x20, NL, TAB, CR])"

fun parseValue :: "nat \<Rightarrow> string \<Rightarrow> (nat goValue \<times> string) option"
  and parseElements :: "nat \<Rightarrow> string \<Rightarrow> (nat goValue list \<times> string) option"
  and parseMembers :: "nat \<Rightarrow> string \<Rightarrow> ((string \<times> nat goValue) list \<times> string) option"
where
  "parseValue 0 cs = None"
| "parseValue (Suc n) cs =
     (let r = dropWhile isSpace cs;
          inner = dropWhile isSpace (drop 1 r)
      in if take 4 r = ''null'' then Some (GoNil, drop 4 r)
         else if take 4 r = ''true'' then Some (GoBool True, drop 4 r)
         else if take 5 r = ''false'' then Some (GoBool False, drop 5 r)
         else if take 1 r = [QUOTE] then
           (if dropWhile (\<lambda>c. c \<noteq> QUOTE) (drop 1 r) = [] then None
            else Some (GoString (takeWhile (\<lambda>c. c \<noteq> QUOTE) (drop 1 r)),
                       drop 1 (dropWhile (\<lambda>c. c \<noteq> QUOTE) (drop 1 r))))
         else if take 1 r = ''['' then
           (if take 1 inner = '']'' then Some (GoSlice [], drop 1 inner)
            else map_option (\<lambda>(vs, rest). (GoSlice vs, rest)) (parseElements n inner))
         else if take 1 r = ''{'' then
           (if take 1 inner = ''}'' then Some (GoMap [], drop 1 inner)
            else map_option (\<lambda>(kvs, rest). (GoMap kvs, rest)) (parseMembers n inner))
         else if takeWhile isDigit r \<noteq> [] then
           Some (GoNumber (number (takeWhile isDigit r)), dropWhile isDigit r)
         else None)"
| "parseElements 0 cs = None"
| "parseElements (Suc n) cs =
     (case parseValue n cs of
        None \<Rightarrow> None
      | Some (v, r) \<Rightarrow>
          (let rest = dropWhile isSpace r
           in if take 1 rest = '','' then
                map_option (\<lambda>(vs, rest'). (v # vs, rest')) (parseElements n (drop 1 rest))
              else if take 1 rest = '']'' then Some ([v], drop 1 rest)
              else None))"
| "parseMembers 0 cs = None"
| "parseMembers (Suc n) cs =
     (let r = dropWhile isSpace cs;
          key = takeWhile (\<lambda>c. c \<noteq> QUOTE) (drop 1 r);
          colon = dropWhile isSpace (drop 1 (dropWhile (\<lambda>c. c \<noteq> QUOTE) (drop 1 r)))
      in if take 1 r \<noteq> [QUOTE] \<or> take 1 colon \<noteq> '':'' then None
         else (case parseValue n (drop 1 colon) of
                 None \<Rightarrow> None
               | Some (v, r') \<Rightarrow>
                   (let rest = dropWhile isSpace r'
                    in if take 1 rest = '','' then
                         map_option
                           (\<lambda>(kvs, rest').
                              (if key \<in> set (map fst kvs) then kvs else (key, v) # kvs, rest'))
                           (parseMembers n (drop 1 rest))
                       else if take 1 rest = ''}'' then Some ([(key, v)], drop 1 rest)
                       else None)))"










section \<open>Running the actions\<close>

lemma andThen_return [simp]: "andThen (return x) f = f x"
  by (simp add: andThen_def return_def)

lemma concat_SplitAfter: "concat (SplitAfter s sep) = s"
  by (induction s) (auto split: list.splits)

lemma SplitAfter_not_Nil: "SplitAfter s sep \<noteq> []"
  by (induction s) (auto split: list.splits)

lemma length_SplitAfter: "length (SplitAfter s sep) = Suc (count_list s sep)"
  by (induction s) (auto split: list.splits simp: SplitAfter_not_Nil)

lemma last_SplitAfter_no_sep: "sep \<notin> set (last (SplitAfter s sep))"
  by (induction s) (auto split: list.splits simp: SplitAfter_not_Nil)

lemma butlast_SplitAfter:
  "l \<in> set (butlast (SplitAfter s sep)) \<Longrightarrow> l \<noteq> [] \<and> last l = sep \<and> sep \<notin> set (butlast l)"
  by (induction s arbitrary: l) (auto split: list.splits if_splits simp: SplitAfter_not_Nil)

lemma SplitAfter_snoc_sep:
  "SplitAfter (s @ [sep]) sep =
     butlast (SplitAfter s sep) @ [last (SplitAfter s sep) @ [sep], []]"
  by (induction s) (auto split: list.splits simp: SplitAfter_not_Nil)

lemma last_SplitAfter_snoc_sep: "last (SplitAfter (s @ [sep]) sep) = []"
  by (simp add: SplitAfter_snoc_sep)

lemma HasSuffix_single: "HasSuffix s [c] = (s \<noteq> [] \<and> last s = c)"
proof (cases s rule: rev_cases)
  case Nil
  then show ?thesis by (simp add: HasSuffix_def)
next
  case (snoc ys y)
  then show ?thesis by (auto simp add: HasSuffix_def)
qed

lemma andThen_run:
  "andThen m f s = (case m s of
       (Returns x, s') \<Rightarrow> f x s'
     | (Halted, s') \<Rightarrow> (Halted, s')
     | (Panicked p, s') \<Rightarrow> (Panicked p, s'))"
  by (simp add: andThen_def)

lemma andThen_Returns: "m s = (Returns x, s') \<Longrightarrow> andThen m f s = f x s'"
  by (simp add: andThen_def)

lemma andThen_Halted: "m s = (Halted, s') \<Longrightarrow> andThen m f s = (Halted, s')"
  by (simp add: andThen_def)

lemma andThen_Panicked: "m s = (Panicked p, s') \<Longrightarrow> andThen m f s = (Panicked p, s')"
  by (simp add: andThen_def)

lemma return_run: "return x s = (Returns x, s)"
  by (simp add: return_def)

lemma panic_run: "panic p s = (Panicked p, s)"
  by (simp add: panic_def)

lemma Fail_run: "Fail E t failureMessage m s = (Returns False, s @ [(t, failureReport E failureMessage m)])"
  by (simp add: Fail_def failureReport_def Let_def andThen_def t_Errorf_def return_def)

lemma FailDiff_run:
  "FailDiff E t failureMessage d m s = (Returns False, s @ [(t, diffReport E failureMessage d m)])"
  by (simp add: FailDiff_def diffReport_def Fail_run Let_def andThen_def t_Errorf_def return_def)

lemma diff_unfold:
  "diff E x y =
     (case difflib_GetUnifiedDiffString E (unifiedDiffOf (withNewline x) (withNewline y)) of
        (d, Some err) \<Rightarrow> panic (''Error producing diff: '' @ err)
      | (d, None) \<Rightarrow> return d)"
  by (simp add: diff_def Let_def HasSuffix_single withNewline_def unifiedDiffOf_def
        split: prod.splits option.splits)

lemma diff_v1_unfold:
  "diff_v1 E x y =
     (case difflib_GetUnifiedDiffString E (unifiedDiffOf x y) of
        (d, Some err) \<Rightarrow> panic (''Error producing diff: '' @ err)
      | (d, None) \<Rightarrow> return d)"
  by (simp add: diff_v1_def Let_def unifiedDiffOf_def split: prod.splits option.splits)

lemma diff_run_ok:
  "difflib_GetUnifiedDiffString E (unifiedDiffOf (withNewline x) (withNewline y)) = (d, None)
     \<Longrightarrow> diff E x y s = (Returns d, s)"
  by (simp add: diff_unfold return_def)

lemma marshalJSON_ok:
  "json_MarshalIndent E i [] ''    '' = (out, None) \<Longrightarrow> marshalJSON E t i m s = (Returns out, s)"
  by (simp add: marshalJSON_def return_def)

lemma marshalJSON_err:
  "json_MarshalIndent E i [] ''    '' = (out, Some err) \<Longrightarrow>
     marshalJSON E t i m s =
       (Returns out, s @ [(t, failureReport E (''Error marshaling JSON: '' @ err @ [NL]) m)])"
  by (simp add: marshalJSON_def andThen_def Fail_run return_def)

section \<open>The facades\<close>

text \<open>
  C9. An \<^verbatim>\<open>Assertions\<close> object stores the sink it was made for. Every method of such
  an object, in package \<^verbatim>\<open>assert\<close> and in package \<^verbatim>\<open>require\<close>, gives from every trace
  the same result and the same trace as the free function called with the stored sink. The two methods of the earlier
  revisions that take a sink argument of their own do not use it. (Package
  \<^verbatim>\<open>assert\<close> has no method \<^verbatim>\<open>HTMLEqual\<close>; package \<^verbatim>\<open>require\<close> has one.)
\<close>

theorem method_form_is_free_function_on_stored_sink:
  "Assertions_t (New assert_New t) = t
   \<and> Assertions_t (require_New require_New' t) = t
   \<and> Assertions_DeepEqual E a expected actual m s
       = DeepEqual E (Assertions_t a) expected actual m s
   \<and> Assertions_DeepEqualJSON E a expected actual m s
       = DeepEqualJSON E (Assertions_t a) expected actual m s
   \<and> Assertions_MarshalsToJSON E a expectedJSON actual m s
       = MarshalsToJSON E (Assertions_t a) expectedJSON actual m s
   \<and> Assertions_LinesEqual E a expectedText actualText m s
       = LinesEqual E (Assertions_t a) expectedText actualText m s
   \<and> Assertions_DeepEqual_v1 E a t expected actual m s
       = DeepEqual_v1 E (Assertions_t a) expected actual m s
   \<and> require_Assertions_DeepEqual E a expected actual m s
       = require_DeepEqual E (Assertions_t a) expected actual m s
   \<and> require_Assertions_DeepEqualJSON E a expected actual m s
       = require_DeepEqualJSON E (Assertions_t a) expected actual m s
   \<and> require_Assertions_DeepEqualJSON_v1 E a t expected actual m s
       = require_DeepEqualJSON E (Assertions_t a) expected actual m s
   \<and> require_Assertions_MarshalsToJSON E a expectedJSON actual m s
       = require_MarshalsToJSON E (Assertions_t a) expectedJSON actual m s
   \<and> require_Assertions_LinesEqual E a expectedText actualText m s
       = require_LinesEqual E (Assertions_t a) expectedText actualText m s
   \<and> require_Assertions_HTMLEqual E a expected actual m s
       = require_HTMLEqual E (Assertions_t a) expected actual m s"
  by (simp add: New_def require_New_def Assertions_DeepEqual_def Assertions_DeepEqualJSON_def
      Assertions_MarshalsToJSON_def Assertions_LinesEqual_def Assertions_DeepEqual_v1_def
      require_Assertions_DeepEqual_def require_Assertions_DeepEqualJSON_def
      require_Assertions_DeepEqualJSON_v1_def require_Assertions_MarshalsToJSON_def
      require_Assertions_LinesEqual_def require_Assertions_HTMLEqual_def)

section \<open>The text differ\<close>

lemma withNewline_HasSuffix: "HasSuffix (withNewline s) [NL]"
  by (simp add: HasSuffix_single withNewline_def)

lemma withNewline_cases:
  "withNewline s = (if HasSuffix s [NL] then s else s @ [NL])"
  by (simp add: HasSuffix_single withNewline_def)

lemma last_SplitAfter_withNewline: "last (SplitAfter (withNewline s) NL) = []"
proof (cases "s \<noteq> [] \<and> last s = NL")
  case True
  then have "s = butlast s @ [NL]" by (metis append_butlast_last_id)
  then have "SplitAfter (withNewline s) NL = SplitAfter (butlast s @ [NL]) NL"
    using True by (simp add: withNewline_def)
  then show ?thesis by (simp only: last_SplitAfter_snoc_sep)
next
  case False
  then have "withNewline s = s @ [NL]" by (auto simp add: withNewline_def)
  then show ?thesis by (simp only: last_SplitAfter_snoc_sep)
qed

text \<open>
  C3, as the code has it. In the revision with all five checks \<^verbatim>\<open>diff\<close> adds a
  newline to an input that does not end with one and leaves an input that ends with one
  as it is; the text so
  obtained is split after every newline, so that the pieces put together give the text
  back, every piece but the last ends with its only newline, and the last piece is
  empty; the two lists of pieces go to difflib with the labels \<^verbatim>\<open>expected\<close> and
  \<^verbatim>\<open>actual\<close> and a context of 2. The earlier revision splits the inputs as they are
  and hands the pieces to difflib in the same way.
\<close>

theorem diff_adds_missing_newline_and_splits:
  "(HasSuffix expected [NL] \<longrightarrow> withNewline expected = expected)
   \<and> (\<not> HasSuffix expected [NL] \<longrightarrow> withNewline expected = expected @ [NL])
   \<and> (HasSuffix actual [NL] \<longrightarrow> withNewline actual = actual)
   \<and> (\<not> HasSuffix actual [NL] \<longrightarrow> withNewline actual = actual @ [NL])
   \<and> (\<forall>x \<in> {withNewline expected, withNewline actual}.
         concat (SplitAfter x NL) = x
         \<and> (\<forall>l \<in> set (butlast (SplitAfter x NL)). l \<noteq> [] \<and> last l = NL \<and> NL \<notin> set (butlast l))
         \<and> last (SplitAfter x NL) = [])
   \<and> diff E expected actual =
        (case difflib_GetUnifiedDiffString E
                \<lparr> A = SplitAfter (withNewline expected) NL, FromFile = ''expected'',
                  FromDate = [],
                  B = SplitAfter (withNewline actual) NL, ToFile = ''actual'', ToDate = [],
                  Eol = [], Context = 2 \<rparr> of
           (d, Some err) \<Rightarrow> panic (''Error producing diff: '' @ err)
         | (d, None) \<Rightarrow> return d)
   \<and> diff_v1 E expected actual =
        (case difflib_GetUnifiedDiffString E
                \<lparr> A = SplitAfter expected NL, FromFile = ''expected'', FromDate = [],
                  B = SplitAfter actual NL, ToFile = ''actual'', ToDate = [],
                  Eol = [], Context = 2 \<rparr> of
           (d, Some err) \<Rightarrow> panic (''Error producing diff: '' @ err)
         | (d, None) \<Rightarrow> return d)"
proof -
  have e: "diff_v1 E expected actual =
        (case difflib_GetUnifiedDiffString E
                \<lparr> A = SplitAfter expected NL, FromFile = ''expected'', FromDate = [],
                  B = SplitAfter actual NL, ToFile = ''actual'', ToDate = [],
                  Eol = [], Context = 2 \<rparr> of
           (d, Some err) \<Rightarrow> panic (''Error producing diff: '' @ err)
         | (d, None) \<Rightarrow> return d)"
    by (simp add: diff_v1_unfold unifiedDiffOf_def)
  have a: "\<And>s. HasSuffix s [NL] \<longrightarrow> withNewline s = s"
    by (simp add: withNewline_cases)
  have b: "\<And>s. \<not> HasSuffix s [NL] \<longrightarrow> withNewline s = s @ [NL]"
    by (simp add: withNewline_cases)
  have c: "\<And>x. concat (SplitAfter (withNewline x) NL) = withNewline x
         \<and> (\<forall>l \<in> set (butlast (SplitAfter (withNewline x) NL)).
               l \<noteq> [] \<and> last l = NL \<and> NL \<notin> set (butlast l))
         \<and> last (SplitAfter (withNewline x) NL) = []"
    using butlast_SplitAfter by (simp add: concat_SplitAfter last_SplitAfter_withNewline)
  have d: "diff E expected actual =
        (case difflib_GetUnifiedDiffString E
                \<lparr> A = SplitAfter (withNewline expected) NL, FromFile = ''expected'',
                  FromDate = [],
                  B = SplitAfter (withNewline actual) NL, ToFile = ''actual'', ToDate = [],
                  Eol = [], Context = 2 \<rparr> of
           (d, Some err) \<Rightarrow> panic (''Error producing diff: '' @ err)
         | (d, None) \<Rightarrow> return d)"
    by (simp add: diff_unfold unifiedDiffOf_def)
  from a b c d e show ?thesis by blast
qed


theorem diff_adds_missing_newline_and_splits_witness:
  "withNewline ''a'' = ''a'' @ [NL]
   \<and> withNewline (''b'' @ [NL]) = ''b'' @ [NL]
   \<and> SplitAfter (withNewline ''a'') NL = [''a'' @ [NL], []]
   \<and> last (SplitAfter (withNewline (''b'' @ [NL])) NL) = []
   \<and> diff fake ''a'' (''b'' @ [NL]) []
       = (Returns (''--- expected'' @ [NL] @ ''+++ actual'' @ [NL]
                     @ ''-a'' @ [NL] @ ''-'' @ ''+b'' @ [NL] @ ''+''), [])"
  using diff_adds_missing_newline_and_splits [of "''a''" "''b'' @ [NL]" fake]
  by (simp add: withNewline_def HasSuffix_single fake_def fake_GetUnifiedDiffString_def
      return_def)

text \<open>
  The earlier revision of \<^verbatim>\<open>diff\<close> adds nothing: the text \<^verbatim>\<open>a\<close> goes to difflib as the
  one piece \<^verbatim>\<open>a\<close>, with no newline, and differs from the text \<^verbatim>\<open>a\n\<close>, which the later
  revision takes for the same text.
\<close>

theorem diff_v1_adds_no_newline:
  "SplitAfter ''a'' NL = [''a'']
   \<and> diff_v1 fake ''a'' (''a'' @ [NL]) []
       = (Returns (''--- expected'' @ [NL] @ ''+++ actual'' @ [NL]
                     @ ''-a'' @ ''+a'' @ [NL] @ ''+''), [])
   \<and> diff fake ''a'' (''a'' @ [NL]) [] = (Returns [], [])"
  by (simp add: diff_v1_def diff_def HasSuffix_single fake_def fake_GetUnifiedDiffString_def
      return_def)

lemma t_Errorf_run: "t_Errorf t f args s = (Returns (), s @ [(t, Errorf f args)])"
  by (simp add: t_Errorf_def)

lemma t_FailNow_run: "t_FailNow t s = (Halted, s @ [(t, FailNow)])"
  by (simp add: t_FailNow_def)

lemma failureReport_args:
  "\<exists>f args. failureReport E failureMessage m = Errorf f args
     \<and> 3 \<le> length args \<and> args ! 2 = indentMessageLines E failureMessage 2"
  by (simp add: failureReport_def)

lemma marshalJSON_run:
  "marshalJSON E t i m s =
     (Returns (fst (json_MarshalIndent E i [] ''    '')), s @ marshalReport E t i m)"
  by (cases "json_MarshalIndent E i [] ''    ''")
     (auto simp add: marshalReport_def marshalJSON_ok marshalJSON_err split: option.splits)

section \<open>The JSON checks\<close>

text \<open>
  C6. When the expected bytes do not parse, \<^verbatim>\<open>MarshalsToJSON\<close> returns false and the
  last call on the sink is the report of \<^verbatim>\<open>Fail\<close> with the description
  \<^verbatim>\<open>Error unmarshaling expected JSON string\<close>, whatever the actual value is: the
  decoded forms are not compared and no diff is made. (Before that, the actual value
  has been marshaled, which leaves a report of its own when it fails.)
\<close>

theorem MarshalsToJSON_expected_not_json:
  assumes "json_Unmarshal E expected = Inl err"
  shows "MarshalsToJSON E t expected actual m s =
           (Returns False,
            s @ marshalReport E t actual m
              @ [(t, failureReport E ''Error unmarshaling expected JSON string'' m)])"
  using assms
  by (simp add: MarshalsToJSON_def andThen_run marshalJSON_run Fail_run)

theorem MarshalsToJSON_expected_not_json_witness:
  "json_Unmarshal fake ''{not json'' = Inl ''invalid character''
   \<and> MarshalsToJSON fake 0 ''{not json'' (Other mapAB) [] []
       = (Returns False,
          [(0, Errorf (''%s'' @ [TAB] @ ''Error Trace:'' @ [TAB] @ ''%s'' @ [NL]
                         @ [TAB] @ ''Error:%s'' @ [NL])
                 [[], ''x_test.go:7'', ''Error unmarshaling expected JSON string''])])
   \<and> fst (MarshalsToJSON fake 0 ''{not json'' (Other chanValue) [] []) = Returns False
   \<and> last (snd (MarshalsToJSON fake 0 ''{not json'' (Other chanValue) [] []))
       = (0, Errorf (''%s'' @ [TAB] @ ''Error Trace:'' @ [TAB] @ ''%s'' @ [NL]
                       @ [TAB] @ ''Error:%s'' @ [NL])
               [[], ''x_test.go:7'', ''Error unmarshaling expected JSON string''])"
proof -
  have h: "json_Unmarshal fake ''{not json'' = Inl ''invalid character''"
    by (simp add: fake_def fake_Unmarshal_def jsonAB_def jsonBA_def)
  show ?thesis
    using h MarshalsToJSON_expected_not_json [OF h, of 0 "Other mapAB" "[]" "[]"]
      MarshalsToJSON_expected_not_json [OF h, of 0 "Other chanValue" "[]" "[]"]
    by (simp add: marshalReport_def failureReport_def fake_def fake_MarshalIndent_def
        mapAB_def chanValue_def)
qed

subsection \<open>The encoder and the comparison do not depend on the order of a map\<close>
















section \<open>The HTML check\<close>

lemma HTMLEqual_expected_fails:
  "toHTMLNode E expected = (n, Some err) \<Longrightarrow>
     HTMLEqual E t expected actual m s =
       (Halted, s @ [(t, Errorf ''invalid expected document: %s'' [err]), (t, FailNow)])"
  by (simp add: HTMLEqual_def andThen_run t_Errorf_run t_FailNow_run)

lemma HTMLEqual_actual_fails:
  "toHTMLNode E expected = (n, None) \<Longrightarrow> toHTMLNode E actual = (n', Some err) \<Longrightarrow>
     HTMLEqual E t expected actual m s =
       (Halted, s @ [(t, Errorf ''invalid actual document: %s'' [err]), (t, FailNow)])"
  by (simp add: HTMLEqual_def andThen_run t_Errorf_run t_FailNow_run return_run)

lemma HTMLEqual_both_parse:
  "toHTMLNode E expected = (expDoc, None) \<Longrightarrow> toHTMLNode E actual = (actDoc, None) \<Longrightarrow>
     reflect_DeepEqual E (NodePtr expDoc) (NodePtr actDoc) \<Longrightarrow>
     HTMLEqual E t expected actual m s = (Returns True, s)"
  by (simp add: HTMLEqual_def andThen_run return_run)

text \<open>
  C4. The nil interface and every value of another dynamic type fail to normalise, with
  the error \<^verbatim>\<open>unknown type\<close>; a selection whose outer markup cannot be had fails with
  the wrapped error; a string, a byte slice or a selection's markup fails when the
  parser does. Whenever the expected value fails to normalise, and whenever the
  expected value normalises and the actual value fails, \<^verbatim>\<open>HTMLEqual\<close> makes one
  \<^verbatim>\<open>Errorf\<close> call that names the side and the error, calls \<^verbatim>\<open>FailNow\<close>, and stops:
  it returns nothing, and no diff is reported.
\<close>

theorem HTMLEqual_aborts_when_normalisation_fails:
  "toHTMLNode E Nil = (None, Some ''unknown type: <nil>'')
   \<and> toHTMLNode E (Other x) = (None, Some (''unknown type: '' @ typeName E x))
   \<and> (\<forall>str e. goquery_OuterHtml E q = (str, Some e) \<longrightarrow>
          toHTMLNode E (SelectionPtr q) = (None, Some (''failed to get outer html: '' @ e)))
   \<and> toHTMLNode E (String txt) = html_Parse E txt
   \<and> toHTMLNode E (Bytes txt) = html_Parse E txt
   \<and> (\<forall>err. snd (toHTMLNode E expected) = Some err \<longrightarrow>
          HTMLEqual E t expected actual m s =
            (Halted, s @ [(t, Errorf ''invalid expected document: %s'' [err]), (t, FailNow)]))
   \<and> (\<forall>err. snd (toHTMLNode E expected) = None \<and> snd (toHTMLNode E actual) = Some err \<longrightarrow>
          HTMLEqual E t expected actual m s =
            (Halted, s @ [(t, Errorf ''invalid actual document: %s'' [err]), (t, FailNow)]))"
proof -
  have a: "\<forall>err. snd (toHTMLNode E expected) = Some err \<longrightarrow>
          HTMLEqual E t expected actual m s =
            (Halted, s @ [(t, Errorf ''invalid expected document: %s'' [err]), (t, FailNow)])"
    by (metis HTMLEqual_expected_fails prod.collapse)
  have b: "\<forall>err. snd (toHTMLNode E expected) = None \<and> snd (toHTMLNode E actual) = Some err \<longrightarrow>
          HTMLEqual E t expected actual m s =
            (Halted, s @ [(t, Errorf ''invalid actual document: %s'' [err]), (t, FailNow)])"
    by (metis HTMLEqual_actual_fails prod.collapse)
  have c: "toHTMLNode E Nil = (None, Some ''unknown type: <nil>'')"
    "toHTMLNode E (Other x) = (None, Some (''unknown type: '' @ typeName E x))"
    "toHTMLNode E (String txt) = html_Parse E txt"
    "toHTMLNode E (Bytes txt) = html_Parse E txt"
    by (simp_all add: toHTMLNode_def)
  have d: "\<forall>str e. goquery_OuterHtml E q = (str, Some e) \<longrightarrow>
          toHTMLNode E (SelectionPtr q) = (None, Some (''failed to get outer html: '' @ e))"
    by (simp add: toHTMLNode_def)
  from a b c d show ?thesis by blast
qed

theorem HTMLEqual_aborts_when_normalisation_fails_witness:
  "HTMLEqual fake 0 (Other numberOne) (String ''<p>'') [] []
     = (Halted, [(0, Errorf ''invalid expected document: %s'' [''unknown type: float64'']),
                 (0, FailNow)])
   \<and> HTMLEqual fake 0 (String ''<p>'') Nil [] []
     = (Halted, [(0, Errorf ''invalid actual document: %s'' [''unknown type: <nil>'']),
                 (0, FailNow)])"
  using HTMLEqual_aborts_when_normalisation_fails
          [of fake numberOne "''x''" "''<p>''" "Other numberOne" 0 "String ''<p>''" "[]" "[]"]
        HTMLEqual_aborts_when_normalisation_fails
          [of fake numberOne "''x''" "''<p>''" "String ''<p>''" 0 Nil "[]" "[]"]
  by (simp add: toHTMLNode_def fake_def numberOne_def)

text \<open>
  C10. A nil \<^verbatim>\<open>*html.Node\<close> passes the type switch and comes back as it is, with no
  error. \<^verbatim>\<open>reflect.DeepEqual\<close> holds of two nil pointers of one type; given that,
  \<^verbatim>\<open>HTMLEqual\<close> on two nil \<^verbatim>\<open>*html.Node\<close> values returns true and calls nothing on the
  sink. The nil interface, on either side, ends the check with \<^verbatim>\<open>FailNow\<close> and the
  error \<^verbatim>\<open>unknown type: <nil>\<close>.
\<close>

theorem typed_nil_node_is_accepted:
  "toHTMLNode E (NodePtr None) = (None, None)
   \<and> (reflect_DeepEqual E (NodePtr None) (NodePtr None) \<longrightarrow>
        HTMLEqual E t (NodePtr None) (NodePtr None) m s = (Returns True, s))
   \<and> HTMLEqual E t Nil actual m s =
        (Halted, s @ [(t, Errorf ''invalid expected document: %s'' [''unknown type: <nil>'']),
                      (t, FailNow)])
   \<and> HTMLEqual E t (NodePtr None) Nil m s =
        (Halted, s @ [(t, Errorf ''invalid actual document: %s'' [''unknown type: <nil>'']),
                      (t, FailNow)])"
proof -
  have a: "toHTMLNode E (NodePtr None) = (None, None)"
    by (simp add: toHTMLNode_def)
  have n: "toHTMLNode E Nil = (None, Some ''unknown type: <nil>'')"
    by (simp add: toHTMLNode_def)
  show ?thesis
    using a HTMLEqual_both_parse [OF a a] HTMLEqual_expected_fails [OF n]
      HTMLEqual_actual_fails [OF a n]
    by blast
qed

theorem typed_nil_node_is_accepted_witness:
  "reflect_DeepEqual fake (NodePtr None) (NodePtr None)
   \<and> HTMLEqual fake 0 (NodePtr None) (NodePtr None) [] [] = (Returns True, [])
   \<and> HTMLEqual fake 0 Nil Nil [] [] =
        (Halted, [(0, Errorf ''invalid expected document: %s'' [''unknown type: <nil>'']),
                  (0, FailNow)])"
proof -
  have h: "reflect_DeepEqual fake (NodePtr None) (NodePtr None)"
    by (simp add: fake_def)
  show ?thesis
    using h typed_nil_node_is_accepted [of fake 0 "[]" "[]" Nil]
    by simp
qed

section \<open>The deep-equality check\<close>

lemma interfaceDiff_unfold:
  "interfaceDiff E expected actual = diff E (spew_Sdump E scs expected) (spew_Sdump E scs actual)"
  by (simp add: interfaceDiff_def)

lemma DeepEqual_equal:
  "reflect_DeepEqual E expected actual \<Longrightarrow> DeepEqual E t expected actual m s = (Returns True, s)"
  by (simp add: DeepEqual_def return_run)

lemma DeepEqual_differ:
  "\<not> reflect_DeepEqual E expected actual \<Longrightarrow>
   difflib_GetUnifiedDiffString E
     (unifiedDiffOf (withNewline (spew_Sdump E scs expected))
                    (withNewline (spew_Sdump E scs actual))) = (d, None) \<Longrightarrow>
   DeepEqual E t expected actual m s
     = (Returns False, s @ [(t, diffReport E ''Structs differ'' d m)])"
  by (simp add: DeepEqual_def interfaceDiff_unfold andThen_run diff_run_ok FailDiff_run)




section \<open>A value that does not marshal\<close>

lemma DeepEqualJSON_run:
  "DeepEqualJSON E t expected actual m s =
     (let expectedJSON = fst (json_MarshalIndent E expected [] ''    '');
          actualJSON = fst (json_MarshalIndent E actual [] ''    '');
          s' = s @ marshalReport E t expected m @ marshalReport E t actual m
      in if reflect_DeepEqual E (unmarshalInto E expectedJSON) (unmarshalInto E actualJSON)
         then (Returns True, s')
         else andThen (diff E expectedJSON actualJSON)
                (\<lambda>d. FailDiff E t ''JSON representations differ'' d m) s')"
  by (simp add: DeepEqualJSON_def andThen_run marshalJSON_run Let_def return_run)

text \<open>What holds for every value that does not marshal: its error is reported, with
  the error's text in the description, before anything else the check reports.\<close>

lemma DeepEqualJSON_reports_marshal_error:
  assumes "json_MarshalIndent E expected [] ''    '' = (out, Some err)"
  shows "\<exists>rest. snd (DeepEqualJSON E t expected actual m s)
           = s @ [(t, failureReport E (''Error marshaling JSON: '' @ err @ [NL]) m)] @ rest"
  using assms
  by (auto simp add: DeepEqualJSON_run Let_def marshalReport_def andThen_run diff_unfold
      FailDiff_run return_run panic_run split: prod.splits option.splits outcome.splits)

text \<open>
  C2 at the input \<^verbatim>\<open>DeepEqualJSON(t, make(chan int), nil)\<close>. The channel does not
  marshal: \<^verbatim>\<open>marshalJSON\<close> reports the error and returns no bytes. Decoding no bytes
  fails and leaves \<^verbatim>\<open>e\<close> nil; \<^verbatim>\<open>nil\<close> marshals to \<^verbatim>\<open>null\<close>, which decodes to nil. The
  two decoded values are deeply equal and the check returns true, with the failure
  reported.
\<close>

theorem DeepEqualJSON_true_after_marshal_error:
  "DeepEqualJSON fake 0 (Other chanValue) Nil [] []
     = (Returns True,
        [(0, Errorf (''%s'' @ [TAB] @ ''Error Trace:'' @ [TAB] @ ''%s'' @ [NL]
                       @ [TAB] @ ''Error:%s'' @ [NL])
               [[], ''x_test.go:7'',
                ''Error marshaling JSON: json: unsupported type: chan int'' @ [NL]])])"
  by (simp add: DeepEqualJSON_run Let_def marshalReport_def failureReport_def unmarshalInto_def
      fake_def fake_MarshalIndent_def fake_Unmarshal_def chanValue_def)

section \<open>Package require: what the forms do\<close>

lemma require_DeepEqual_equal:
  "reflect_DeepEqual E expected actual \<Longrightarrow>
     require_DeepEqual E t expected actual m s = (Returns (), s)"
  by (simp add: require_DeepEqual_def andThen_run DeepEqual_equal return_run)

lemma require_DeepEqual_differ:
  "\<not> reflect_DeepEqual E expected actual \<Longrightarrow>
   difflib_GetUnifiedDiffString E
     (unifiedDiffOf (withNewline (spew_Sdump E scs expected))
                    (withNewline (spew_Sdump E scs actual))) = (d, None) \<Longrightarrow>
   require_DeepEqual E t expected actual m s
     = (Halted, s @ [(t, diffReport E ''Structs differ'' d m), (t, FailNow)])"
  by (simp add: require_DeepEqual_def andThen_run DeepEqual_differ t_FailNow_run)

lemma require_LinesEqual_equal:
  "require_LinesEqual E t x x m s = (Returns (), s)"
  by (simp add: require_LinesEqual_def LinesEqual_def andThen_run return_run)

lemma require_LinesEqual_differ:
  "x \<noteq> y \<Longrightarrow>
   difflib_GetUnifiedDiffString E (unifiedDiffOf (withNewline x) (withNewline y)) = (d, None) \<Longrightarrow>
   require_LinesEqual E t x y m s
     = (Halted, s @ [(t, diffReport E ''Strings differ'' d m), (t, FailNow)])"
  by (simp add: require_LinesEqual_def LinesEqual_def andThen_run diff_run_ok FailDiff_run
      t_FailNow_run)

lemma require_DeepEqualJSON_marshaled:
  assumes "json_MarshalIndent E expected [] ''    '' = (expectedJSON, None)"
    and "json_MarshalIndent E actual [] ''    '' = (actualJSON, None)"
  shows "reflect_DeepEqual E (unmarshalInto E expectedJSON) (unmarshalInto E actualJSON) \<Longrightarrow>
           require_DeepEqualJSON E t expected actual m s = (Returns (), s)"
    and "\<not> reflect_DeepEqual E (unmarshalInto E expectedJSON) (unmarshalInto E actualJSON) \<Longrightarrow>
         difflib_GetUnifiedDiffString E
           (unifiedDiffOf (withNewline expectedJSON) (withNewline actualJSON)) = (d, None) \<Longrightarrow>
           require_DeepEqualJSON E t expected actual m s
             = (Halted, s @ [(t, diffReport E ''JSON representations differ'' d m),
                             (t, FailNow)])"
  using assms
  by (simp_all add: require_DeepEqualJSON_def DeepEqualJSON_run marshalReport_def andThen_run
      diff_run_ok FailDiff_run t_FailNow_run return_run)

lemma require_HTMLEqual_equal:
  "toHTMLNode E expected = (expDoc, None) \<Longrightarrow> toHTMLNode E actual = (actDoc, None) \<Longrightarrow>
   reflect_DeepEqual E (NodePtr expDoc) (NodePtr actDoc) \<Longrightarrow>
   require_HTMLEqual E t expected actual m s = (Returns (), s)"
  by (simp add: require_HTMLEqual_def andThen_run HTMLEqual_both_parse return_run)

lemma require_HTMLEqual_differ:
  "toHTMLNode E expected = (expDoc, None) \<Longrightarrow> toHTMLNode E actual = (actDoc, None) \<Longrightarrow>
   \<not> reflect_DeepEqual E (NodePtr expDoc) (NodePtr actDoc) \<Longrightarrow>
   html_Render E expDoc = Inr expBuf \<Longrightarrow> html_Render E actDoc = Inr actBuf \<Longrightarrow>
   difflib_GetUnifiedDiffString E
     (unifiedDiffOf (withNewline expBuf) (withNewline actBuf)) = (d, None) \<Longrightarrow>
   require_HTMLEqual E t expected actual m s
     = (Halted, s @ [(t, diffReport E ''HTML differs'' d m), (t, FailNow)])"
  by (simp add: require_HTMLEqual_def HTMLEqual_def andThen_run diff_run_ok FailDiff_run
      t_FailNow_run return_run)

text \<open>
  C7 at two inputs. \<^verbatim>\<open>require.DeepEqualJSON(t, make(chan int), nil)\<close>: the check of
  package \<^verbatim>\<open>assert\<close> reports the marshaling error and returns true, so the require form
  returns to its caller after a reported failure, without \<^verbatim>\<open>FailNow\<close>.
  \<^verbatim>\<open>require.DeepEqualJSON(t, make(chan int), 1.0)\<close>: the check reports the marshaling
  error, then the difference, and the require form stops after two reports.
\<close>

theorem require_DeepEqualJSON_after_marshal_error:
  "require_DeepEqualJSON fake 0 (Other chanValue) Nil [] []
     = (Returns (),
        [(0, Errorf (''%s'' @ [TAB] @ ''Error Trace:'' @ [TAB] @ ''%s'' @ [NL]
                       @ [TAB] @ ''Error:%s'' @ [NL])
               [[], ''x_test.go:7'',
                ''Error marshaling JSON: json: unsupported type: chan int'' @ [NL]])])
   \<and> require_DeepEqualJSON fake 0 (Other chanValue) (Other numberOne) [] []
     = (Halted,
        [(0, Errorf (''%s'' @ [TAB] @ ''Error Trace:'' @ [TAB] @ ''%s'' @ [NL]
                       @ [TAB] @ ''Error:%s'' @ [NL])
               [[], ''x_test.go:7'',
                ''Error marshaling JSON: json: unsupported type: chan int'' @ [NL]]),
         (0, diffReport fake ''JSON representations differ''
               (''--- expected'' @ [NL] @ ''+++ actual'' @ [NL] @ ''-'' @ [NL] @ ''-''
                  @ ''+1'' @ [NL] @ ''+'') []),
         (0, FailNow)])"
  by (simp add: require_DeepEqualJSON_def DeepEqualJSON_run Let_def marshalReport_def
      failureReport_def unmarshalInto_def andThen_run return_run diff_def HasSuffix_single
      FailDiff_run t_FailNow_run
      fake_def fake_MarshalIndent_def fake_Unmarshal_def fake_GetUnifiedDiffString_def
      chanValue_def numberOne_def jsonAB_def jsonBA_def)

section \<open>The two patterns\<close>

lemma ReplaceAllString_match:
  "re (c # cs) = Some (Suc n) \<Longrightarrow>
     ReplaceAllString re (c # cs) repl = repl @ ReplaceAllString re (drop n cs) repl"
  by simp

lemma ReplaceAllString_no_match:
  "re (c # cs) = None \<Longrightarrow> ReplaceAllString re (c # cs) repl = c # ReplaceAllString re cs repl"
  by simp

lemma takeWhile_run:
  "list_all P xs \<Longrightarrow> \<not> P y \<Longrightarrow> takeWhile P (xs @ y # ys) = xs"
  by (induction xs) auto

lemma drop_prefix_run: "length p = k \<Longrightarrow> drop (k + length xs) (p @ xs @ ys) = ys"
  by simp

lemma drop_prefix: "length p = k \<Longrightarrow> drop k (p @ ys) = ys"
  by simp

lemma not_isDigit_paren: "\<not> isDigit (CHR '')'')"
  by (simp add: isDigit_def)

lemma not_isHex_paren: "\<not> isHex (CHR '')'')"
  by (simp add: isHex_def)

lemma take_prefix: "length p = k \<Longrightarrow> take k (p @ ys) = p"
  by simp

lemma capRE_annotation:
  assumes "ds \<noteq> []" "list_all isDigit ds"
  shows "capRE (''cap='' @ ds @ '')'' @ rest) = Some (Suc (length ds + 4))"
proof -
  have x1: "drop (4 + length ds) (''cap='' @ ds @ '')'' @ rest) = '')'' @ rest"
    by (rule drop_prefix_run) simp
  have x2: "drop 4 (''cap='' @ ds @ '')'' @ rest) = ds @ '')'' @ rest"
    by (rule drop_prefix) simp
  have x3: "take 4 (''cap='' @ ds @ '')'' @ rest) = ''cap=''"
    by (rule take_prefix) simp
  have x4: "takeWhile isDigit (ds @ '')'' @ rest) = ds"
    using takeWhile_run [of isDigit ds "CHR '')''" rest] assms(2)
    by (simp add: not_isDigit_paren)
  have e: "capRE (''cap='' @ ds @ '')'' @ rest)
        = (if ''cap='' = ''cap='' \<and> 1 \<le> length ds \<and> take 1 ('')'' @ rest) = '')''
           then Some (4 + length ds + 1) else None)"
    by (simp only: capRE_def Let_def x1 x2 x3 x4)
  have "1 \<le> length ds"
    using assms(1) by (cases ds) auto
  with e show ?thesis by simp
qed

lemma addRE_annotation:
  assumes "6 \<le> length h" "length h \<le> 10" "list_all isHex h"
  shows "addRE (''(0x'' @ h @ '')'' @ rest) = Some (Suc (length h + 3))"
proof -
  have x1: "drop (3 + length h) (''(0x'' @ h @ '')'' @ rest) = '')'' @ rest"
    by (rule drop_prefix_run) simp
  have x2: "drop 3 (''(0x'' @ h @ '')'' @ rest) = h @ '')'' @ rest"
    by (rule drop_prefix) simp
  have x3: "take 3 (''(0x'' @ h @ '')'' @ rest) = ''(0x''"
    by (rule take_prefix) simp
  have x4: "takeWhile isHex (h @ '')'' @ rest) = h"
    using takeWhile_run [of isHex h "CHR '')''" rest] assms(3)
    by (simp add: not_isHex_paren)
  have e: "addRE (''(0x'' @ h @ '')'' @ rest)
        = (if ''(0x'' = ''(0x'' \<and> 6 \<le> length h \<and> length h \<le> 10
                \<and> take 1 ('')'' @ rest) = '')''
           then Some (3 + length h + 1) else None)"
    by (simp only: addRE_def Let_def x1 x2 x3 x4)
  with assms show ?thesis by simp
qed

lemma run_then_paren:
  assumes "take 1 (drop (length (takeWhile P w)) w) = [y]"
  shows "\<exists>rest. w = takeWhile P w @ y # rest"
proof -
  have "take 1 (dropWhile P w) = [y]"
    using assms by (simp only: dropWhile_eq_drop)
  then obtain rest where "dropWhile P w = y # rest"
    by (cases "dropWhile P w") auto
  then have "takeWhile P w @ y # rest = w"
    by (metis takeWhile_dropWhile_id)
  then show ?thesis by metis
qed

lemma capRE_SomeD:
  assumes "capRE s = Some n"
  shows "\<exists>ds rest. s = ''cap='' @ ds @ '')'' @ rest \<and> ds \<noteq> [] \<and> list_all isDigit ds
           \<and> n = Suc (length ds + 4)"
proof -
  define w where "w = drop 4 s"
  define ds where "ds = takeWhile isDigit w"
  have c: "capRE s = (if take 4 s = ''cap='' \<and> 1 \<le> length ds
                        \<and> take 1 (drop (4 + length ds) s) = '')''
                      then Some (4 + length ds + 1) else None)"
    by (simp only: capRE_def Let_def w_def ds_def)
  from assms c have t: "take 4 s = ''cap=''" and l: "1 \<le> length ds"
    and p: "take 1 (drop (4 + length ds) s) = '')''" and n: "n = 4 + length ds + 1"
    by (simp_all split: if_splits)
  have s: "''cap='' @ w = s"
    using t append_take_drop_id [of 4 s] by (simp only: w_def)
  have "drop (4 + length ds) s = drop (length ds) w"
    by (simp only: w_def drop_drop add.commute)
  with p have "take 1 (drop (length (takeWhile isDigit w)) w) = [CHR '')'']"
    by (simp only: ds_def)
  from run_then_paren [OF this] obtain rest where w: "w = ds @ CHR '')'' # rest"
    by (auto simp only: ds_def)
  have d: "list_all isDigit ds"
    unfolding ds_def list_all_iff by (meson set_takeWhileD)
  have ne: "ds \<noteq> []"
    using l by auto
  have "s = ''cap='' @ ds @ '')'' @ rest"
    using s w by simp
  with d ne n show ?thesis by auto
qed

lemma addRE_SomeD:
  assumes "addRE s = Some n"
  shows "\<exists>h rest. s = ''(0x'' @ h @ '')'' @ rest \<and> 6 \<le> length h \<and> length h \<le> 10
           \<and> list_all isHex h \<and> n = Suc (length h + 3)"
proof -
  define w where "w = drop 3 s"
  define h where "h = takeWhile isHex w"
  have c: "addRE s = (if take 3 s = ''(0x'' \<and> 6 \<le> length h \<and> length h \<le> 10
                        \<and> take 1 (drop (3 + length h) s) = '')''
                      then Some (3 + length h + 1) else None)"
    by (simp only: addRE_def Let_def w_def h_def)
  from assms c have t: "take 3 s = ''(0x''" and l: "6 \<le> length h" "length h \<le> 10"
    and p: "take 1 (drop (3 + length h) s) = '')''" and n: "n = 3 + length h + 1"
    by (simp_all split: if_splits)
  have s: "''(0x'' @ w = s"
    using t append_take_drop_id [of 3 s] by (simp only: w_def)
  have "drop (3 + length h) s = drop (length h) w"
    by (simp only: w_def drop_drop add.commute)
  with p have "take 1 (drop (length (takeWhile isHex w)) w) = [CHR '')'']"
    by (simp only: h_def)
  from run_then_paren [OF this] obtain rest where w: "w = h @ CHR '')'' # rest"
    by (auto simp only: h_def)
  have d: "list_all isHex h"
    unfolding h_def list_all_iff by (meson set_takeWhileD)
  have "s = ''(0x'' @ h @ '')'' @ rest"
    using s w by simp
  with d l n show ?thesis by auto
qed

section \<open>Dumps that differ in addresses only\<close>

lemma addRE_Nil: "addRE [] = None"
  by (simp add: addRE_def)

lemma capRE_Nil: "capRE [] = None"
  by (simp add: capRE_def)

lemma not_isHex_open: "\<not> isHex (CHR ''('')"
  by (simp add: isHex_def)

lemma sameUpToAddress_refl: "sameUpToAddress s s"
  by (induction s) (auto intro: sameUpToAddress.intros)

lemma sameUpToAddress_addr:
  "6 \<le> length h \<Longrightarrow> length h \<le> 10 \<Longrightarrow> 6 \<le> length h' \<Longrightarrow> length h' \<le> 10 \<Longrightarrow>
   list_all isHex h \<Longrightarrow> list_all isHex h' \<Longrightarrow> sameUpToAddress s u \<Longrightarrow>
   sameUpToAddress (CHR ''('' # CHR ''0'' # CHR ''x'' # h @ CHR '')'' # s)
                   (CHR ''('' # CHR ''0'' # CHR ''x'' # h' @ CHR '')'' # u)"
  using sameUpToAddress.addr [of h h' s u] by simp

lemma sameUpToAddress_sym: "sameUpToAddress s u \<Longrightarrow> sameUpToAddress u s"
  by (induction rule: sameUpToAddress.induct)
     (auto intro: sameUpToAddress.empty sameUpToAddress.same sameUpToAddress_addr)

lemma sameUpToAddress_prepend: "sameUpToAddress s u \<Longrightarrow> sameUpToAddress (p @ s) (p @ u)"
  by (induction p) (auto intro: sameUpToAddress.intros)

lemma sameUpToAddress_Nil: "sameUpToAddress [] u \<Longrightarrow> u = []"
  by (erule sameUpToAddress.cases) auto

lemma sameUpToAddress_copies:
  "sameUpToAddress (p @ s) u \<Longrightarrow> CHR ''('' \<notin> set p \<Longrightarrow> \<exists>u'. u = p @ u' \<and> sameUpToAddress s u'"
proof (induction p arbitrary: u)
  case Nil
  then show ?case by simp
next
  case (Cons a p)
  from Cons.prems(1) show ?case
  proof (cases rule: sameUpToAddress.cases)
    case empty
    then show ?thesis by simp
  next
    case (same s' u' c)
    with Cons show ?thesis by auto
  next
    case (addr h h' s' u')
    with Cons.prems(2) show ?thesis by simp
  qed
qed


lemma drop_addr_annotation:
  "drop (Suc (length h + 3)) (''(0x'' @ h @ '')'' @ s) = s"
proof -
  have "Suc (length h + 3) = length (''(0x'' @ h @ '')'')" by simp
  moreover have "''(0x'' @ h @ '')'' @ s = (''(0x'' @ h @ '')'') @ s" by simp
  ultimately show ?thesis by (simp only: drop_prefix)
qed

lemma hex_no_open: "list_all isHex h \<Longrightarrow> CHR ''('' \<notin> set h"
  using not_isHex_open by (auto simp add: list_all_iff)

lemma addRE_sync:
  assumes "sameUpToAddress s u" and "addRE s = Some n"
  shows "\<exists>m. addRE u = Some m \<and> sameUpToAddress (drop n s) (drop m u)"
  using assms(1)
proof (cases rule: sameUpToAddress.cases)
  case empty
  with assms(2) show ?thesis by (simp add: addRE_Nil)
next
  case (same s1 u1 c)
  from addRE_SomeD [OF assms(2)] obtain h rest where
    s: "s = ''(0x'' @ h @ '')'' @ rest" and h: "6 \<le> length h" "length h \<le> 10" "list_all isHex h"
    and n: "n = Suc (length h + 3)"
    by blast
  from s same(1) have s1: "s1 = (''0x'' @ h @ '')'') @ rest"
    by simp
  have "CHR ''('' \<notin> set (''0x'' @ h @ '')'')"
    using hex_no_open [OF h(3)] by simp
  with sameUpToAddress_copies [of "''0x'' @ h @ '')''" rest u1] same(3) s1
  obtain u' where u1: "u1 = (''0x'' @ h @ '')'') @ u'" and r: "sameUpToAddress rest u'"
    by blast
  from s same(1) have "c = CHR ''(''" by simp
  with same(2) u1 have u: "u = ''(0x'' @ h @ '')'' @ u'"
    by simp
  have "addRE u = Some n"
    unfolding u n by (rule addRE_annotation [OF h])
  moreover have "drop n s = rest" "drop n u = u'"
    unfolding s u n by (rule drop_addr_annotation)+
  ultimately show ?thesis
    using r by auto
next
  case (addr h h' s0 u0)
  have a: "addRE s = Some (Suc (length h + 3))"
    unfolding addr(1) by (rule addRE_annotation [OF addr(3,4,7)])
  have b: "addRE u = Some (Suc (length h' + 3))"
    unfolding addr(2) by (rule addRE_annotation [OF addr(5,6,8)])
  from a assms(2) have n: "n = Suc (length h + 3)" by simp
  have "drop n s = s0"
    unfolding addr(1) n by (rule drop_addr_annotation)
  moreover have "drop (Suc (length h' + 3)) u = u0"
    unfolding addr(2) by (rule drop_addr_annotation)
  ultimately show ?thesis
    using b addr(9) by auto
qed

lemma addRE_sync_None:
  assumes "sameUpToAddress s u" and "addRE s = None"
  shows "addRE u = None"
proof (cases "addRE u")
  case None
  then show ?thesis .
next
  case (Some m)
  from addRE_sync [OF sameUpToAddress_sym [OF assms(1)] Some] assms(2)
  show ?thesis by auto
qed

lemma sameUpToAddress_tail:
  assumes "sameUpToAddress (c # s) u" and "addRE (c # s) = None"
  shows "\<exists>u'. u = c # u' \<and> sameUpToAddress s u'"
  using assms(1)
proof (cases rule: sameUpToAddress.cases)
  case same
  then show ?thesis by auto
next
  case (addr h h' s0 u0)
  have "addRE (c # s) = Some (Suc (length h + 3))"
    unfolding addr(1) by (rule addRE_annotation [OF addr(3,4,7)])
  with assms(2) show ?thesis by simp
qed

lemma ReplaceAllString_addRE_same:
  "sameUpToAddress s u \<Longrightarrow> ReplaceAllString addRE s repl = ReplaceAllString addRE u repl"
proof (induction "length s" arbitrary: s u rule: less_induct)
  case less
  show ?case
  proof (cases s)
    case Nil
    with less.prems have "u = []"
      using sameUpToAddress_Nil by simp
    with Nil show ?thesis by simp
  next
    case (Cons c cs)
    show ?thesis
    proof (cases "addRE s")
      case None
      from sameUpToAddress_tail less.prems None Cons
      obtain u' where u: "u = c # u'" and r: "sameUpToAddress cs u'"
        by blast
      have "addRE u = None"
        by (rule addRE_sync_None [OF less.prems None])
      moreover have "ReplaceAllString addRE cs repl = ReplaceAllString addRE u' repl"
        using less.hyps [of cs u'] r Cons by simp
      ultimately show ?thesis
        using None Cons u by simp
    next
      case (Some n)
      from addRE_sync [OF less.prems Some]
      obtain m where m: "addRE u = Some m" and r: "sameUpToAddress (drop n s) (drop m u)"
        by blast
      from addRE_SomeD [OF Some] obtain k where n: "n = Suc k" by blast
      from addRE_SomeD [OF m] obtain k' d us where k': "m = Suc k'" and u: "u = d # us"
        by auto
      have "length (drop n s) < length s"
        using Cons n by simp
      from less.hyps [OF this r]
      have "ReplaceAllString addRE (drop k cs) repl = ReplaceAllString addRE (drop k' us) repl"
        using Cons n k' u by simp
      then show ?thesis
        using Some m Cons n k' u by simp
    qed
  qed
qed

section \<open>Dumps that differ in volatile annotations\<close>

lemma not_isDigit_c: "\<not> isDigit (CHR ''c'')" and not_isDigit_open: "\<not> isDigit (CHR ''('')"
  by (simp_all add: isDigit_def)

lemma not_isHex_p: "\<not> isHex (CHR ''p'')"
  by (simp add: isHex_def)

lemma sameUpToVolatile_cap:
  "ds \<noteq> [] \<Longrightarrow> ds' \<noteq> [] \<Longrightarrow> list_all isDigit ds \<Longrightarrow> list_all isDigit ds' \<Longrightarrow>
   sameUpToVolatile s u \<Longrightarrow>
   sameUpToVolatile (CHR ''c'' # CHR ''a'' # CHR ''p'' # CHR ''='' # ds @ CHR '')'' # s)
                    (CHR ''c'' # CHR ''a'' # CHR ''p'' # CHR ''='' # ds' @ CHR '')'' # u)"
  using sameUpToVolatile.cap [of ds ds' s u] by simp

lemma sameUpToVolatile_addr:
  "6 \<le> length h \<Longrightarrow> length h \<le> 10 \<Longrightarrow> 6 \<le> length h' \<Longrightarrow> length h' \<le> 10 \<Longrightarrow>
   list_all isHex h \<Longrightarrow> list_all isHex h' \<Longrightarrow> sameUpToVolatile s u \<Longrightarrow>
   sameUpToVolatile (CHR ''('' # CHR ''0'' # CHR ''x'' # h @ CHR '')'' # s)
                    (CHR ''('' # CHR ''0'' # CHR ''x'' # h' @ CHR '')'' # u)"
  using sameUpToVolatile.addr [of h h' s u] by simp

lemma sameUpToVolatile_refl: "sameUpToVolatile s s"
  by (induction s) (auto intro: sameUpToVolatile.empty sameUpToVolatile.same)

lemma sameUpToVolatile_sym: "sameUpToVolatile s u \<Longrightarrow> sameUpToVolatile u s"
  by (induction rule: sameUpToVolatile.induct)
     (auto intro: sameUpToVolatile.empty sameUpToVolatile.same sameUpToVolatile_cap
        sameUpToVolatile_addr)

lemma sameUpToVolatile_prepend: "sameUpToVolatile s u \<Longrightarrow> sameUpToVolatile (p @ s) (p @ u)"
  by (induction p) (auto intro: sameUpToVolatile.same)

lemma sameUpToVolatile_Nil: "sameUpToVolatile [] u \<Longrightarrow> u = []"
  by (erule sameUpToVolatile.cases) auto

lemma sameUpToVolatile_copies:
  "sameUpToVolatile (p @ s) u \<Longrightarrow> CHR ''('' \<notin> set p \<Longrightarrow> CHR ''c'' \<notin> set p \<Longrightarrow>
     \<exists>u'. u = p @ u' \<and> sameUpToVolatile s u'"
proof (induction p arbitrary: u)
  case Nil
  then show ?case by simp
next
  case (Cons a p)
  from Cons.prems(1) show ?case
  proof (cases rule: sameUpToVolatile.cases)
    case empty
    then show ?thesis by simp
  next
    case (same s' u' c)
    with Cons show ?thesis by auto
  next
    case (cap ds ds' s' u')
    with Cons.prems(3) show ?thesis by simp
  next
    case (addr h h' s' u')
    with Cons.prems(2) show ?thesis by simp
  qed
qed

lemma drop_cap_annotation:
  "drop (Suc (length ds + 4)) (''cap='' @ ds @ '')'' @ s) = s"
proof -
  have "Suc (length ds + 4) = length (''cap='' @ ds @ '')'')" by simp
  moreover have "''cap='' @ ds @ '')'' @ s = (''cap='' @ ds @ '')'') @ s" by simp
  ultimately show ?thesis by (simp only: drop_prefix)
qed

lemma digits_no_open_c:
  "list_all isDigit ds \<Longrightarrow> CHR ''('' \<notin> set ds \<and> CHR ''c'' \<notin> set ds"
  using not_isDigit_c not_isDigit_open by (auto simp add: list_all_iff)

lemma capRE_starts_with_c: "capRE (a # s) = Some n \<Longrightarrow> a = CHR ''c''"
  by (drule capRE_SomeD) auto

lemma capRE_sync:
  assumes "sameUpToVolatile s u" and "capRE s = Some n"
  shows "\<exists>m. capRE u = Some m \<and> sameUpToVolatile (drop n s) (drop m u)"
  using assms(1)
proof (cases rule: sameUpToVolatile.cases)
  case empty
  with assms(2) show ?thesis by (simp add: capRE_Nil)
next
  case (same s1 u1 c)
  from capRE_SomeD [OF assms(2)] obtain ds rest where
    s: "s = ''cap='' @ ds @ '')'' @ rest" and d: "ds \<noteq> []" "list_all isDigit ds"
    and n: "n = Suc (length ds + 4)"
    by blast
  from s same(1) have s1: "s1 = (''ap='' @ ds @ '')'') @ rest"
    by simp
  have "CHR ''('' \<notin> set (''ap='' @ ds @ '')'')" "CHR ''c'' \<notin> set (''ap='' @ ds @ '')'')"
    using digits_no_open_c [OF d(2)] by simp_all
  with sameUpToVolatile_copies [of "''ap='' @ ds @ '')''" rest u1] same(3) s1
  obtain u' where u1: "u1 = (''ap='' @ ds @ '')'') @ u'" and r: "sameUpToVolatile rest u'"
    by blast
  from s same(1) have "c = CHR ''c''" by simp
  with same(2) u1 have u: "u = ''cap='' @ ds @ '')'' @ u'"
    by simp
  have "capRE u = Some n"
    unfolding u n by (rule capRE_annotation [OF d])
  moreover have "drop n s = rest" "drop n u = u'"
    unfolding s u n by (rule drop_cap_annotation)+
  ultimately show ?thesis
    using r by auto
next
  case (cap ds ds' s0 u0)
  have a: "capRE s = Some (Suc (length ds + 4))"
    unfolding cap(1) by (rule capRE_annotation [OF cap(3,5)])
  have b: "capRE u = Some (Suc (length ds' + 4))"
    unfolding cap(2) by (rule capRE_annotation [OF cap(4,6)])
  from a assms(2) have n: "n = Suc (length ds + 4)" by simp
  have "drop n s = s0"
    unfolding cap(1) n by (rule drop_cap_annotation)
  moreover have "drop (Suc (length ds' + 4)) u = u0"
    unfolding cap(2) by (rule drop_cap_annotation)
  ultimately show ?thesis
    using b cap(7) by auto
next
  case (addr h h' s0 u0)
  from assms(2) addr(1) have "capRE (CHR ''('' # (''0x'' @ h @ '')'' @ s0)) = Some n"
    by simp
  from capRE_starts_with_c [OF this] show ?thesis by simp
qed

lemma capRE_sync_None:
  assumes "sameUpToVolatile s u" and "capRE s = None"
  shows "capRE u = None"
proof (cases "capRE u")
  case None
  then show ?thesis .
next
  case (Some m)
  from capRE_sync [OF sameUpToVolatile_sym [OF assms(1)] Some] assms(2)
  show ?thesis by auto
qed

text \<open>The first pattern finds nothing inside an address annotation.\<close>

lemma capRE_in_hex_run:
  assumes "list_all isHex h"
  shows "capRE (h @ '')'' @ s) = None"
proof (cases "capRE (h @ '')'' @ s)")
  case None
  then show ?thesis .
next
  case (Some n)
  from capRE_SomeD [OF Some] obtain ds rest where
    e: "h @ '')'' @ s = ''cap='' @ ds @ '')'' @ rest"
    by blast
  show ?thesis
  proof (cases h)
    case Nil
    with e show ?thesis by simp
  next
    case (Cons a h1)
    note h = this
    show ?thesis
    proof (cases h1)
      case Nil
      with e h show ?thesis by simp
    next
      case (Cons b h2)
      note h1 = this
      show ?thesis
      proof (cases h2)
        case Nil
        with e h h1 show ?thesis by simp
      next
        case (Cons c h3)
        with e h h1 have "c = CHR ''p''" by simp
        with assms h h1 Cons not_isHex_p show ?thesis by simp
      qed
    qed
  qed
qed

lemma ReplaceAllString_capRE_hex_run:
  "list_all isHex h \<Longrightarrow>
     ReplaceAllString capRE (h @ '')'' @ s) repl = h @ '')'' @ ReplaceAllString capRE s repl"
proof (induction h)
  case Nil
  have "capRE (CHR '')'' # s) = None"
    using capRE_in_hex_run [of "[]" s] by simp
  then show ?case by simp
next
  case (Cons a h)
  have "capRE (a # (h @ '')'' @ s)) = None"
    using capRE_in_hex_run [of "a # h" s] Cons.prems by simp
  with Cons show ?case by simp
qed

lemma capRE_not_c: "a \<noteq> CHR ''c'' \<Longrightarrow> capRE (a # s) = None"
  using capRE_starts_with_c [of a s] by (cases "capRE (a # s)") auto

lemma ReplaceAllString_capRE_addr:
  assumes "list_all isHex h"
  shows "ReplaceAllString capRE (''(0x'' @ h @ '')'' @ s) repl
           = ''(0x'' @ h @ '')'' @ ReplaceAllString capRE s repl"
proof -
  have "ReplaceAllString capRE (''(0x'' @ (h @ '')'' @ s)) repl
          = ''(0x'' @ ReplaceAllString capRE (h @ '')'' @ s) repl"
    by (simp add: capRE_not_c)
  with ReplaceAllString_capRE_hex_run [OF assms, of s repl] show ?thesis
    by simp
qed

lemma sameUpToVolatile_tail:
  assumes "sameUpToVolatile (c # s) u" and "capRE (c # s) = None"
  shows "(\<exists>u'. u = c # u' \<and> sameUpToVolatile s u')
       \<or> (\<exists>h h' s0 u0. c # s = ''(0x'' @ h @ '')'' @ s0 \<and> u = ''(0x'' @ h' @ '')'' @ u0
             \<and> 6 \<le> length h \<and> length h \<le> 10 \<and> 6 \<le> length h' \<and> length h' \<le> 10
             \<and> list_all isHex h \<and> list_all isHex h' \<and> sameUpToVolatile s0 u0)"
  using assms(1)
proof (cases rule: sameUpToVolatile.cases)
  case same
  then show ?thesis by auto
next
  case (cap ds ds' s0 u0)
  have "capRE (c # s) = Some (Suc (length ds + 4))"
    unfolding cap(1) by (rule capRE_annotation [OF cap(3,5)])
  with assms(2) show ?thesis by simp
next
  case (addr h h' s0 u0)
  then show ?thesis by blast
qed

lemma ReplaceAllString_capRE_same:
  "sameUpToVolatile s u \<Longrightarrow>
     sameUpToAddress (ReplaceAllString capRE s repl) (ReplaceAllString capRE u repl)"
proof (induction "length s" arbitrary: s u rule: less_induct)
  case less
  show ?case
  proof (cases s)
    case Nil
    with less.prems have "u = []"
      using sameUpToVolatile_Nil by simp
    with Nil show ?thesis by (simp add: sameUpToAddress.empty)
  next
    case (Cons c cs)
    show ?thesis
    proof (cases "capRE s")
      case None
      have un: "capRE u = None"
        by (rule capRE_sync_None [OF less.prems None])
      have p1: "sameUpToVolatile (c # cs) u"
        using less.prems Cons by simp
      have p2: "capRE (c # cs) = None"
        using None Cons by simp
      from sameUpToVolatile_tail [OF p1 p2] show ?thesis
      proof (elim disjE exE conjE)
        fix u'
        assume same: "u = c # u'" "sameUpToVolatile cs u'"
        have "sameUpToAddress (ReplaceAllString capRE cs repl) (ReplaceAllString capRE u' repl)"
          using less.hyps [of cs u'] same(2) Cons by simp
        then show ?thesis
          using None un Cons same(1) by (simp add: sameUpToAddress.same)
      next
        fix h h' s0 u0
        assume addr: "c # cs = ''(0x'' @ h @ '')'' @ s0" "u = ''(0x'' @ h' @ '')'' @ u0"
          "6 \<le> length h" "length h \<le> 10" "6 \<le> length h'" "length h' \<le> 10"
          "list_all isHex h" "list_all isHex h'" "sameUpToVolatile s0 u0"
        have "length (c # cs) = length (''(0x'' @ h @ '')'' @ s0)"
          by (simp only: addr(1))
        then have "length s0 < length s"
          using Cons by simp
        from less.hyps [OF this addr(9)]
        have "sameUpToAddress (ReplaceAllString capRE s0 repl) (ReplaceAllString capRE u0 repl)" .
        from sameUpToAddress.addr [OF addr(3,4,5,6,7,8) this]
        show ?thesis
          unfolding Cons addr(1) addr(2)
          by (simp only: ReplaceAllString_capRE_addr [OF addr(7)]
              ReplaceAllString_capRE_addr [OF addr(8)])
      qed
    next
      case (Some n)
      from capRE_sync [OF less.prems Some]
      obtain m where m: "capRE u = Some m" and r: "sameUpToVolatile (drop n s) (drop m u)"
        by blast
      from capRE_SomeD [OF Some] obtain k where n: "n = Suc k" by blast
      from capRE_SomeD [OF m] obtain k' d us where k': "m = Suc k'" and u: "u = d # us"
        by auto
      have "length (drop n s) < length s"
        using Cons n by simp
      from less.hyps [OF this r]
      have "sameUpToAddress (ReplaceAllString capRE (drop k cs) repl)
              (ReplaceAllString capRE (drop k' us) repl)"
        using Cons n k' u by simp
      from sameUpToAddress_prepend [OF this, of repl]
      show ?thesis
        using Some m Cons n k' u by simp
    qed
  qed
qed

lemma normalizedDump_same:
  "sameUpToVolatile s u \<Longrightarrow> normalizedDump s = normalizedDump u"
  unfolding normalizedDump_def
  by (rule ReplaceAllString_addRE_same [OF ReplaceAllString_capRE_same])

lemma ReplaceAllString_capRE_annotation:
  assumes "ds \<noteq> []" "list_all isDigit ds"
  shows "ReplaceAllString capRE (''cap='' @ ds @ '')'' @ s) capRepl
           = ''cap=X'' @ ReplaceAllString capRE s capRepl"
proof -
  have "capRE (CHR ''c'' # (''ap='' @ ds @ '')'' @ s)) = Some (Suc (length ds + 4))"
    using capRE_annotation [OF assms, of s] by simp
  from ReplaceAllString_match
         [of capRE "CHR ''c''" "''ap='' @ ds @ '')'' @ s" "length ds + 4" capRepl, OF this]
  have "ReplaceAllString capRE (''cap='' @ ds @ '')'' @ s) capRepl
          = capRepl @ ReplaceAllString capRE (drop (length ds + 4) (''ap='' @ ds @ '')'' @ s)) capRepl"
    by simp
  moreover have "drop (length ds + 4) ((''ap='' @ ds @ '')'') @ s) = s"
    by (rule drop_prefix) simp
  ultimately show ?thesis by (simp add: capRepl_def)
qed

lemma ReplaceAllString_addRE_annotation:
  assumes "6 \<le> length h" "length h \<le> 10" "list_all isHex h"
  shows "ReplaceAllString addRE (''(0x'' @ h @ '')'' @ s) addRepl
           = ''(0xXXXXXXXXXX)'' @ ReplaceAllString addRE s addRepl"
proof -
  have "addRE (CHR ''('' # (''0x'' @ h @ '')'' @ s)) = Some (Suc (length h + 3))"
    using addRE_annotation [OF assms, of s] by simp
  from ReplaceAllString_match
         [of addRE "CHR ''(''" "''0x'' @ h @ '')'' @ s" "length h + 3" addRepl, OF this]
  have "ReplaceAllString addRE (''(0x'' @ h @ '')'' @ s) addRepl
          = addRepl @ ReplaceAllString addRE (drop (length h + 3) (''0x'' @ h @ '')'' @ s)) addRepl"
    by simp
  moreover have "drop (length h + 3) ((''0x'' @ h @ '')'') @ s) = s"
    by (rule drop_prefix) simp
  ultimately show ?thesis by (simp add: addRepl_def)
qed

lemma interfaceDiff_v1_unfold:
  "interfaceDiff_v1 E expected actual
     = diff_v1 E (normalizedDump (spew_Sdump E scs expected))
                 (normalizedDump (spew_Sdump E scs actual))"
  by (simp add: interfaceDiff_v1_def normalizedDump_def Let_def)

text \<open>
  C1, as the code has it. In the earlier revision \<^verbatim>\<open>interfaceDiff\<close> hands to \<^verbatim>\<open>diff\<close>, for
  each value, its dump rewritten by the two patterns: every capacity annotation
  \<^verbatim>\<open>cap=N)\<close> becomes \<^verbatim>\<open>cap=X\<close>, every address annotation \<^verbatim>\<open>(0x...)\<close> of six to ten
  digits out of \<^verbatim>\<open>0-9a-f\<close> becomes \<^verbatim>\<open>(0xXXXXXXXXXX)\<close>, and two dumps that differ only
  in such annotations are rewritten to the same text. In the revision with all five
  checks the four rewriting lines are commented out: \<^verbatim>\<open>interfaceDiff\<close> hands the dumps
  to \<^verbatim>\<open>diff\<close> as spew printed them.
\<close>

theorem interfaceDiff_v1_normalizes_the_dumps:
  "interfaceDiff_v1 E expected actual
     = diff_v1 E (normalizedDump (spew_Sdump E scs expected))
                 (normalizedDump (spew_Sdump E scs actual))
   \<and> (\<forall>ds s. ds \<noteq> [] \<and> list_all isDigit ds \<longrightarrow>
         ReplaceAllString capRE (''cap='' @ ds @ '')'' @ s) capRepl
           = ''cap=X'' @ ReplaceAllString capRE s capRepl)
   \<and> (\<forall>h s. 6 \<le> length h \<and> length h \<le> 10 \<and> list_all isHex h \<longrightarrow>
         ReplaceAllString addRE (''(0x'' @ h @ '')'' @ s) addRepl
           = ''(0xXXXXXXXXXX)'' @ ReplaceAllString addRE s addRepl)
   \<and> (sameUpToVolatile (spew_Sdump E scs expected) (spew_Sdump E scs actual) \<longrightarrow>
         normalizedDump (spew_Sdump E scs expected) = normalizedDump (spew_Sdump E scs actual))
   \<and> interfaceDiff E expected actual
       = diff E (spew_Sdump E scs expected) (spew_Sdump E scs actual)"
  using interfaceDiff_v1_unfold [of E expected actual]
    ReplaceAllString_capRE_annotation ReplaceAllString_addRE_annotation
    normalizedDump_same [of "spew_Sdump E scs expected" "spew_Sdump E scs actual"]
    interfaceDiff_unfold [of E expected actual]
  by blast

lemma holders_sameUpToVolatile:
  "sameUpToVolatile (sample_dump holderA) (sample_dump holderB)"
proof -
  define p1 where "p1 = ''(main.T) {'' @ [NL] @ '' p: (*int)''"
  define p2 where "p2 = ''(1),'' @ [NL] @ '' b: ([]int) (len=1 ''"
  define p3 where "p3 = '' {'' @ [NL] @ ''  (int) 7'' @ [NL] @ '' },'' @ [NL]
                         @ '' f: (func()) 0x47b0e0'' @ [NL] @ ''}'' @ [NL]"
  have a: "sample_dump holderA
             = p1 @ (''(0x'' @ ''c000012345'' @ '')'' @ (p2 @ (''cap='' @ ''1'' @ '')'' @ p3)))"
    by (simp add: holderA_def p1_def p2_def p3_def)
  have b: "sample_dump holderB
             = p1 @ (''(0x'' @ ''c00006789a'' @ '')'' @ (p2 @ (''cap='' @ ''16'' @ '')'' @ p3)))"
    by (simp add: holderB_def p1_def p2_def p3_def)
  have "sameUpToVolatile (''cap='' @ ''1'' @ '')'' @ p3) (''cap='' @ ''16'' @ '')'' @ p3)"
    by (rule sameUpToVolatile.cap) (simp_all add: isDigit_def sameUpToVolatile_refl)
  then have "sameUpToVolatile (p2 @ (''cap='' @ ''1'' @ '')'' @ p3))
                              (p2 @ (''cap='' @ ''16'' @ '')'' @ p3))"
    by (rule sameUpToVolatile_prepend)
  then have "sameUpToVolatile
               (''(0x'' @ ''c000012345'' @ '')'' @ (p2 @ (''cap='' @ ''1'' @ '')'' @ p3)))
               (''(0x'' @ ''c00006789a'' @ '')'' @ (p2 @ (''cap='' @ ''16'' @ '')'' @ p3)))"
    by (intro sameUpToVolatile.addr) (simp_all add: isHex_def)
  then show ?thesis
    unfolding a b by (rule sameUpToVolatile_prepend)
qed

theorem interfaceDiff_v1_normalizes_the_dumps_witness:
  "sameUpToVolatile (spew_Sdump fake scs (Other holderA)) (spew_Sdump fake scs (Other holderB))
   \<and> normalizedDump (spew_Sdump fake scs (Other holderA))
       = normalizedDump (spew_Sdump fake scs (Other holderB))
   \<and> normalizedDump (spew_Sdump fake scs (Other holderA))
       = ''(main.T) {'' @ [NL] @ '' p: (*int)(0xXXXXXXXXXX)(1),'' @ [NL]
           @ '' b: ([]int) (len=1 cap=X {'' @ [NL] @ ''  (int) 7'' @ [NL]
           @ '' },'' @ [NL]
           @ '' f: (func()) 0x47b0e0'' @ [NL] @ ''}'' @ [NL]
   \<and> interfaceDiff_v1 fake (Other holderA) (Other holderB) [] = (Returns [], [])"
proof -
  have d: "spew_Sdump fake scs (Other holderA) = sample_dump holderA"
    "spew_Sdump fake scs (Other holderB) = sample_dump holderB"
    by (simp_all add: fake_def fake_Sdump_def)
  have h: "sameUpToVolatile (spew_Sdump fake scs (Other holderA))
             (spew_Sdump fake scs (Other holderB))"
    unfolding d by (rule holders_sameUpToVolatile)
  have n: "normalizedDump (sample_dump holderA)
       = ''(main.T) {'' @ [NL] @ '' p: (*int)(0xXXXXXXXXXX)(1),'' @ [NL]
           @ '' b: ([]int) (len=1 cap=X {'' @ [NL] @ ''  (int) 7'' @ [NL]
           @ '' },'' @ [NL]
           @ '' f: (func()) 0x47b0e0'' @ [NL] @ ''}'' @ [NL]"
    by code_simp
  have e: "normalizedDump (spew_Sdump fake scs (Other holderA))
             = normalizedDump (spew_Sdump fake scs (Other holderB))"
    using h interfaceDiff_v1_normalizes_the_dumps [of fake "Other holderA" "Other holderB"]
    by blast
  have "interfaceDiff_v1 fake (Other holderA) (Other holderB) []
          = diff_v1 fake (normalizedDump (spew_Sdump fake scs (Other holderA)))
                         (normalizedDump (spew_Sdump fake scs (Other holderA))) []"
    using e interfaceDiff_v1_normalizes_the_dumps [of fake "Other holderA" "Other holderB"]
    by simp
  also have "\<dots> = (Returns [], [])"
    by (simp add: diff_v1_def fake_def fake_GetUnifiedDiffString_def return_run)
  finally have r: "interfaceDiff_v1 fake (Other holderA) (Other holderB) [] = (Returns [], [])" .
  from h e n r d show ?thesis by simp
qed

text \<open>
  In the revision with all five checks, two dumps that differ only in an address and a
  capacity go to difflib as they are; the diff lists every line of the one and every
  line of the other, the volatile annotations included.
\<close>

theorem interfaceDiff_keeps_volatile_annotations:
  "sameUpToVolatile (spew_Sdump fake scs (Other holderA)) (spew_Sdump fake scs (Other holderB))
   \<and> interfaceDiff fake (Other holderA) (Other holderB) []
       = (Returns (''--- expected'' @ [NL] @ ''+++ actual'' @ [NL]
            @ ''-(main.T) {'' @ [NL] @ ''- p: (*int)(0xc000012345)(1),'' @ [NL]
            @ ''- b: ([]int) (len=1 cap=1) {'' @ [NL] @ ''-  (int) 7'' @ [NL]
            @ ''- },'' @ [NL] @ ''- f: (func()) 0x47b0e0'' @ [NL] @ ''-}'' @ [NL] @ ''-''
            @ ''+(main.T) {'' @ [NL] @ ''+ p: (*int)(0xc00006789a)(1),'' @ [NL]
            @ ''+ b: ([]int) (len=1 cap=16) {'' @ [NL] @ ''+  (int) 7'' @ [NL]
            @ ''+ },'' @ [NL] @ ''+ f: (func()) 0x47b0e0'' @ [NL] @ ''+}'' @ [NL] @ ''+''), [])"
proof -
  have d: "spew_Sdump fake scs (Other holderA) = sample_dump holderA"
    "spew_Sdump fake scs (Other holderB) = sample_dump holderB"
    by (simp_all add: fake_def fake_Sdump_def)
  have h: "sameUpToVolatile (spew_Sdump fake scs (Other holderA))
             (spew_Sdump fake scs (Other holderB))"
    unfolding d by (rule holders_sameUpToVolatile)
  have r: "interfaceDiff fake (Other holderA) (Other holderB) []
       = (Returns (''--- expected'' @ [NL] @ ''+++ actual'' @ [NL]
            @ ''-(main.T) {'' @ [NL] @ ''- p: (*int)(0xc000012345)(1),'' @ [NL]
            @ ''- b: ([]int) (len=1 cap=1) {'' @ [NL] @ ''-  (int) 7'' @ [NL]
            @ ''- },'' @ [NL] @ ''- f: (func()) 0x47b0e0'' @ [NL] @ ''-}'' @ [NL] @ ''-''
            @ ''+(main.T) {'' @ [NL] @ ''+ p: (*int)(0xc00006789a)(1),'' @ [NL]
            @ ''+ b: ([]int) (len=1 cap=16) {'' @ [NL] @ ''+  (int) 7'' @ [NL]
            @ ''+ },'' @ [NL] @ ''+ f: (func()) 0x47b0e0'' @ [NL] @ ''+}'' @ [NL] @ ''+''), [])"
    by code_simp
  from h r show ?thesis by simp
qed

section \<open>The deep-equality check, in both revisions\<close>






section \<open>The matchers and the patterns\<close>

lemma concat_singletons:
  "set ws \<subseteq> {[c] | c. c \<in> set cs} \<Longrightarrow>
     length (concat ws) = length ws \<and> set (concat ws) \<subseteq> set cs"
  by (induction ws) auto

lemma lang_Rep_OneOf:
  "w \<in> lang (Rep (OneOf cs) lo hi) \<longleftrightarrow>
     lo \<le> length w \<and> (case hi of None \<Rightarrow> True | Some h \<Rightarrow> length w \<le> h) \<and> set w \<subseteq> set cs"
proof
  assume "w \<in> lang (Rep (OneOf cs) lo hi)"
  then obtain ws where w: "w = concat ws" and lo: "lo \<le> length ws"
    and hi: "case hi of None \<Rightarrow> True | Some h \<Rightarrow> length ws \<le> h"
    and ws: "set ws \<subseteq> {[c] | c. c \<in> set cs}"
    by auto
  from concat_singletons [OF ws] w have "length w = length ws" "set w \<subseteq> set cs"
    by simp_all
  with lo hi show "lo \<le> length w \<and> (case hi of None \<Rightarrow> True | Some h \<Rightarrow> length w \<le> h)
      \<and> set w \<subseteq> set cs"
    by (auto split: option.splits)
next
  assume a: "lo \<le> length w \<and> (case hi of None \<Rightarrow> True | Some h \<Rightarrow> length w \<le> h)
      \<and> set w \<subseteq> set cs"
  define ws where "ws = map (\<lambda>c. [c]) w"
  have c: "concat ws = w"
    unfolding ws_def by (induction w) auto
  have l: "length ws = length w"
    by (simp add: ws_def)
  have s: "set ws \<subseteq> {[c] | c. c \<in> set cs}"
    using a by (auto simp add: ws_def)
  have "concat ws \<in> lang (Rep (OneOf cs) lo hi)"
    unfolding lang.simps using a l s
    by (intro CollectI exI [of _ ws]) (auto split: option.splits)
  with c show "w \<in> lang (Rep (OneOf cs) lo hi)" by simp
qed

lemma lang_Seq: "w \<in> lang (Seq a b) \<longleftrightarrow> (\<exists>u v. w = u @ v \<and> u \<in> lang a \<and> v \<in> lang b)"
  by simp

lemma lang_Lit: "w \<in> lang (Lit c) \<longleftrightarrow> w = c"
  by simp

lemma lang_Seq_Lit_left: "w \<in> lang (Seq (Lit c) b) \<longleftrightarrow> (\<exists>v. w = c @ v \<and> v \<in> lang b)"
  unfolding lang_Seq lang_Lit by (rule iffI; elim exE conjE; simp)

lemma lang_Seq_Lit_right: "w \<in> lang (Seq a (Lit c)) \<longleftrightarrow> (\<exists>u. w = u @ c \<and> u \<in> lang a)"
  unfolding lang_Seq lang_Lit by (rule iffI; elim exE conjE; simp)

lemma list_all_isDigit: "list_all isDigit ds \<longleftrightarrow> set ds \<subseteq> set ''0123456789''"
proof -
  have "isDigit = (\<lambda>c. c \<in> set ''0123456789'')"
    by (rule ext) (simp only: isDigit_def)
  then show ?thesis
    by (simp only: list_all_iff subset_eq)
qed

lemma list_all_isHex: "list_all isHex h \<longleftrightarrow> set h \<subseteq> set ''0123456789abcdef''"
proof -
  have "isHex = (\<lambda>c. c \<in> set ''0123456789abcdef'')"
    by (rule ext) (simp only: isHex_def)
  then show ?thesis
    by (simp only: list_all_iff subset_eq)
qed

lemma lang_three_parts:
  "w \<in> lang (Seq (Lit c) (Seq (Rep (OneOf cs) lo hi) (Lit e))) \<longleftrightarrow>
     (\<exists>u. w = c @ u @ e \<and> lo \<le> length u
          \<and> (case hi of None \<Rightarrow> True | Some h \<Rightarrow> length u \<le> h) \<and> set u \<subseteq> set cs)"
proof
  assume "w \<in> lang (Seq (Lit c) (Seq (Rep (OneOf cs) lo hi) (Lit e)))"
  then obtain v where w: "w = c @ v" and "v \<in> lang (Seq (Rep (OneOf cs) lo hi) (Lit e))"
    unfolding lang_Seq_Lit_left by blast
  then obtain u where v: "v = u @ e" and "u \<in> lang (Rep (OneOf cs) lo hi)"
    unfolding lang_Seq_Lit_right by blast
  then have "lo \<le> length u \<and> (case hi of None \<Rightarrow> True | Some h \<Rightarrow> length u \<le> h)
      \<and> set u \<subseteq> set cs"
    unfolding lang_Rep_OneOf by blast
  with w v show "\<exists>u. w = c @ u @ e \<and> lo \<le> length u
          \<and> (case hi of None \<Rightarrow> True | Some h \<Rightarrow> length u \<le> h) \<and> set u \<subseteq> set cs"
    by blast
next
  assume "\<exists>u. w = c @ u @ e \<and> lo \<le> length u
          \<and> (case hi of None \<Rightarrow> True | Some h \<Rightarrow> length u \<le> h) \<and> set u \<subseteq> set cs"
  then obtain u where w: "w = c @ u @ e" and u: "lo \<le> length u
          \<and> (case hi of None \<Rightarrow> True | Some h \<Rightarrow> length u \<le> h) \<and> set u \<subseteq> set cs"
    by blast
  from u have "u \<in> lang (Rep (OneOf cs) lo hi)"
    unfolding lang_Rep_OneOf .
  then have "u @ e \<in> lang (Seq (Rep (OneOf cs) lo hi) (Lit e))"
    unfolding lang_Seq_Lit_right by blast
  then show "w \<in> lang (Seq (Lit c) (Seq (Rep (OneOf cs) lo hi) (Lit e)))"
    unfolding lang_Seq_Lit_left w by blast
qed

lemma lang_capPattern:
  "w \<in> lang capPattern \<longleftrightarrow> (\<exists>ds. w = ''cap='' @ ds @ '')'' \<and> ds \<noteq> [] \<and> list_all isDigit ds)"
proof -
  have "w \<in> lang capPattern \<longleftrightarrow>
          (\<exists>ds. w = ''cap='' @ ds @ '')'' \<and> 1 \<le> length ds \<and> True \<and> set ds \<subseteq> set ''0123456789'')"
    by (simp only: capPattern_def lang_three_parts option.case)
  also have "\<dots> \<longleftrightarrow> (\<exists>ds. w = ''cap='' @ ds @ '')'' \<and> ds \<noteq> [] \<and> list_all isDigit ds)"
  proof (intro iff_exI)
    fix ds :: string
    have "(1 \<le> length ds) = (ds \<noteq> [])"
      by (cases ds) simp_all
    then show "(w = ''cap='' @ ds @ '')'' \<and> 1 \<le> length ds \<and> True \<and> set ds \<subseteq> set ''0123456789'')
             = (w = ''cap='' @ ds @ '')'' \<and> ds \<noteq> [] \<and> list_all isDigit ds)"
      by (simp only: list_all_isDigit simp_thms)
  qed
  finally show ?thesis .
qed

lemma lang_addPattern:
  "w \<in> lang addPattern \<longleftrightarrow>
     (\<exists>h. w = ''(0x'' @ h @ '')'' \<and> 6 \<le> length h \<and> length h \<le> 10 \<and> list_all isHex h)"
  by (simp only: addPattern_def lang_three_parts option.case list_all_isHex)


text \<open>\<open>capRE\<close> gives \<open>n\<close> exactly when the first \<open>n\<close> bytes of the text are a match of the
  pattern; so a text has at most one match at its start, and the leftmost-first match
  is that one. The same holds of \<open>addRE\<close>.\<close>

lemma capRE_matches:
  "capRE s = Some n \<longleftrightarrow> n \<le> length s \<and> take n s \<in> lang capPattern"
proof
  assume "capRE s = Some n"
  from capRE_SomeD [OF this] obtain ds rest where
    s: "s = (''cap='' @ ds @ '')'') @ rest" and d: "ds \<noteq> []" "list_all isDigit ds"
    and n: "n = length (''cap='' @ ds @ '')'')"
    by auto
  have "take n s = ''cap='' @ ds @ '')''"
    unfolding n by (subst s) (rule take_prefix [OF refl])
  moreover have "n \<le> length s"
    unfolding n by (subst s) simp
  ultimately show "n \<le> length s \<and> take n s \<in> lang capPattern"
    using d lang_capPattern by blast
next
  assume a: "n \<le> length s \<and> take n s \<in> lang capPattern"
  then obtain ds where t: "take n s = ''cap='' @ ds @ '')''" and d: "ds \<noteq> []" "list_all isDigit ds"
    using lang_capPattern by blast
  have "s = take n s @ drop n s" by simp
  with t have s: "s = ''cap='' @ ds @ '')'' @ drop n s" by simp
  from a have "length (take n s) = n" by simp
  with t have n: "n = Suc (length ds + 4)" by simp
  show "capRE s = Some n"
    unfolding n by (subst s) (rule capRE_annotation [OF d])
qed

lemma addRE_matches:
  "addRE s = Some n \<longleftrightarrow> n \<le> length s \<and> take n s \<in> lang addPattern"
proof
  assume "addRE s = Some n"
  from addRE_SomeD [OF this] obtain h rest where
    s: "s = (''(0x'' @ h @ '')'') @ rest" and d: "6 \<le> length h" "length h \<le> 10" "list_all isHex h"
    and n: "n = length (''(0x'' @ h @ '')'')"
    by auto
  have "take n s = ''(0x'' @ h @ '')''"
    unfolding n by (subst s) (rule take_prefix [OF refl])
  moreover have "n \<le> length s"
    unfolding n by (subst s) simp
  ultimately show "n \<le> length s \<and> take n s \<in> lang addPattern"
    using d lang_addPattern by blast
next
  assume a: "n \<le> length s \<and> take n s \<in> lang addPattern"
  then obtain h where t: "take n s = ''(0x'' @ h @ '')''"
    and d: "6 \<le> length h" "length h \<le> 10" "list_all isHex h"
    using lang_addPattern by blast
  have "s = take n s @ drop n s" by simp
  with t have s: "s = ''(0x'' @ h @ '')'' @ drop n s" by simp
  from a have "length (take n s) = n" by simp
  with t have n: "n = Suc (length h + 3)" by simp
  show "addRE s = Some n"
    unfolding n by (subst s) (rule addRE_annotation [OF d])
qed

end
